theory Spec2Isabelle
  imports Main "HOL-Library.AList"
begin

section \<open>JavaScript values, objects and arrays\<close>

text \<open>
  The store keeps one JSON document in memory (\<open>db.data\<close>) and every operation of
  \<open>database.ts\<close> reads or edits it through property access, array methods and object
  spread. This section fixes what those language constructs do; the sections after it
  translate the functions of the source one by one.

  A value is JSON data, or one of the built-in objects that a property lookup can reach
  through the prototype chain of a plain object or an array. An array carries its
  elements and, optionally, the one named property the source ever assigns to an array
  (\<open>tables\<close>, see \<open>createTable\<close>). Numbers are modelled as integers (the record model of
  the specification has ids that are strings or integers), strings as lists of
  characters, one character per code unit. Arrays and objects are values: no claim
  verified here depends on two names sharing one array.
\<close>

datatype jsval =
    Undefined
  | Null
  | Bool bool
  | Num int
  | Str string
  | Obj "(string \<times> jsval) list"
  | Arr "jsval list" "jsval option"
  | Builtin string "nat option"

type_synonym props = "(string \<times> jsval) list"

text \<open>The errors the code can raise: the one \<open>ensureTable\<close> throws, and the runtime's
  \<open>TypeError\<close> (a property read on \<open>undefined\<close> or \<open>null\<close>, a call of something that is
  not a function, a property written on a primitive in strict mode).\<close>

datatype error = TableDoesNotExist string | TypeError

text \<open>The \<open>id\<close> argument of \<open>getById\<close>, \<open>update\<close> and \<open>remove\<close> has type
  \<open>string | number\<close>.\<close>

datatype ident = IdNum int | IdStr string

fun truthy :: "jsval \<Rightarrow> bool" where
  "truthy Undefined = False"
| "truthy Null = False"
| "truthy (Bool b) = b"
| "truthy (Num n) = (n \<noteq> 0)"
| "truthy (Str s) = (s \<noteq> [])"
| "truthy (Obj ps) = True"
| "truthy (Arr xs t) = True"
| "truthy (Builtin n a) = True"

text \<open>\<open>v === id\<close> for an \<open>id\<close> that is a string or a number.\<close>

fun strict_equals :: "jsval \<Rightarrow> ident \<Rightarrow> bool" where
  "strict_equals (Num n) (IdNum m) = (n = m)"
| "strict_equals (Str s) (IdStr t) = (s = t)"
| "strict_equals v i = False"

subsection \<open>Property keys and their order\<close>

text \<open>
  \<open>Object.keys\<close> and object spread enumerate the own properties of an object with the
  array indices first, in ascending numeric order, and the other string keys after them,
  in the order in which they were created. An array index is a canonical decimal numeral
  below \<open>2^32 - 1\<close>. An object is kept as the list of its properties in creation order.
\<close>

definition is_digit :: "char \<Rightarrow> bool" where
  "is_digit c = (48 \<le> (of_char c :: nat) \<and> (of_char c :: nat) \<le> 57)"

definition index_value :: "string \<Rightarrow> nat" where
  "index_value s = foldl (\<lambda>n c. 10 * n + ((of_char c :: nat) - 48)) 0 s"

definition is_array_index :: "string \<Rightarrow> bool" where
  "is_array_index s =
     (s \<noteq> [] \<and> list_all is_digit s \<and> (length s = 1 \<or> hd s \<noteq> CHR ''0'')
      \<and> index_value s < 4294967295)"

definition own_keys :: "props \<Rightarrow> string list" where
  "own_keys ps =
     sort_key index_value (filter is_array_index (map fst ps))
     @ filter (\<lambda>k. \<not> is_array_index k) (map fst ps)"

definition own_value :: "props \<Rightarrow> string \<Rightarrow> jsval" where
  "own_value ps k = (case map_of ps k of Some v \<Rightarrow> v | None \<Rightarrow> Undefined)"

definition entries_of :: "props \<Rightarrow> props" where
  "entries_of ps = map (\<lambda>k. (k, own_value ps k)) (own_keys ps)"

fun decimal :: "nat \<Rightarrow> string" where
  "decimal n =
     (if n < 10 then [char_of (48 + n)]
      else decimal (n div 10) @ [char_of (48 + n mod 10)])"

declare decimal.simps [simp del]

text \<open>The own enumerable properties that \<open>{...v}\<close> copies.\<close>

fun own_entries :: "jsval \<Rightarrow> props" where
  "own_entries (Obj ps) = entries_of ps"
| "own_entries (Arr xs t) =
     map (\<lambda>i. (decimal i, xs ! i)) [0..<length xs]
     @ (case t of None \<Rightarrow> [] | Some v \<Rightarrow> [(''tables'', v)])"
| "own_entries (Str s) = map (\<lambda>i. (decimal i, Str [s ! i])) [0..<length s]"
| "own_entries v = []"

text \<open>\<open>{...old, ...updates}\<close>: a new plain object that receives the properties of
  \<open>old\<close> and then those of \<open>updates\<close>; a key that is already there keeps its place and
  takes the new value.\<close>

definition define_all :: "props \<Rightarrow> props \<Rightarrow> props" where
  "define_all acc es = foldl (\<lambda>ps (k, v). AList.update k v ps) acc es"

definition object_spread :: "jsval \<Rightarrow> props \<Rightarrow> jsval" where
  "object_spread old updates =
     Obj (define_all (define_all [] (own_entries old)) (entries_of updates))"

subsection \<open>Reading the properties the code reads\<close>

text \<open>\<open>item.id\<close>. No built-in prototype has a member of that name, so only a plain
  object can answer with something else than \<open>undefined\<close>.\<close>

fun item_id :: "jsval \<Rightarrow> error + jsval" where
  "item_id Undefined = Inl TypeError"
| "item_id Null = Inl TypeError"
| "item_id (Obj ps) = Inr (own_value ps ''id'')"
| "item_id v = Inr Undefined"

text \<open>The callback \<open>(item) => item.id === id\<close>.\<close>

definition id_matches :: "ident \<Rightarrow> jsval \<Rightarrow> error + bool" where
  "id_matches i item =
     (case item_id item of Inl e \<Rightarrow> Inl e | Inr v \<Rightarrow> Inr (strict_equals v i))"

text \<open>\<open>v.length\<close>.\<close>

fun length_of :: "jsval \<Rightarrow> error + jsval" where
  "length_of Undefined = Inl TypeError"
| "length_of Null = Inl TypeError"
| "length_of (Arr xs t) = Inr (Num (int (length xs)))"
| "length_of (Str s) = Inr (Num (int (length s)))"
| "length_of (Obj ps) = Inr (own_value ps ''length'')"
| "length_of (Builtin n (Some a)) = Inr (Num (int a))"
| "length_of v = Inr Undefined"

subsection \<open>Array methods\<close>

text \<open>\<open>find\<close>, \<open>findIndex\<close> and \<open>filter\<close> call the callback on the elements from the
  left and stop at the first exception; \<open>findIndex\<close> answers \<open>-1\<close> when nothing matches.\<close>

fun array_find :: "(jsval \<Rightarrow> error + bool) \<Rightarrow> jsval list \<Rightarrow> error + jsval" where
  "array_find p [] = Inr Undefined"
| "array_find p (x # xs) =
     (case p x of
        Inl e \<Rightarrow> Inl e
      | Inr b \<Rightarrow> if b then Inr x else array_find p xs)"

fun array_findIndex :: "(jsval \<Rightarrow> error + bool) \<Rightarrow> jsval list \<Rightarrow> error + int" where
  "array_findIndex p [] = Inr (- 1)"
| "array_findIndex p (x # xs) =
     (case p x of
        Inl e \<Rightarrow> Inl e
      | Inr b \<Rightarrow>
          if b then Inr 0
          else (case array_findIndex p xs of
                  Inl e \<Rightarrow> Inl e
                | Inr j \<Rightarrow> Inr (if j = - 1 then - 1 else j + 1)))"

fun array_filter :: "(jsval \<Rightarrow> error + bool) \<Rightarrow> jsval list \<Rightarrow> error + jsval list" where
  "array_filter p [] = Inr []"
| "array_filter p (x # xs) =
     (case p x of
        Inl e \<Rightarrow> Inl e
      | Inr b \<Rightarrow>
          (case array_filter p xs of
             Inl e \<Rightarrow> Inl e
           | Inr ys \<Rightarrow> Inr (if b then x # ys else ys)))"

text \<open>\<open>xs.splice(index, 1)\<close> leaves the elements before and after \<open>index\<close>.\<close>

definition splice1 :: "nat \<Rightarrow> jsval list \<Rightarrow> jsval list" where
  "splice1 index xs = take index xs @ drop (Suc index) xs"

subsection \<open>The document object\<close>

text \<open>
  \<open>db.data\<close> is a plain object: its own properties, and a prototype. The prototype is
  \<open>Object.prototype\<close> unless an assignment to the key \<open>__proto__\<close> has replaced it;
  the source only ever assigns arrays to keys of the document, so a replaced prototype
  is an array. A lookup \<open>data[k]\<close> that finds no own property continues in the prototype
  chain, which is why \<open>data['constructor']\<close> is a function on every document.
\<close>

datatype prototype = ObjectPrototype | ArrayInstance "jsval list" "jsval option"

record document =
  own :: props
  proto :: prototype

definition object_prototype_members :: props where
  "object_prototype_members =
     [(''constructor'', Builtin ''Object'' (Some 1)),
      (''hasOwnProperty'', Builtin ''Object.prototype.hasOwnProperty'' (Some 1)),
      (''isPrototypeOf'', Builtin ''Object.prototype.isPrototypeOf'' (Some 1)),
      (''propertyIsEnumerable'', Builtin ''Object.prototype.propertyIsEnumerable'' (Some 1)),
      (''toLocaleString'', Builtin ''Object.prototype.toLocaleString'' (Some 0)),
      (''toString'', Builtin ''Object.prototype.toString'' (Some 0)),
      (''valueOf'', Builtin ''Object.prototype.valueOf'' (Some 0)),
      (''__defineGetter__'', Builtin ''Object.prototype.__defineGetter__'' (Some 2)),
      (''__defineSetter__'', Builtin ''Object.prototype.__defineSetter__'' (Some 2)),
      (''__lookupGetter__'', Builtin ''Object.prototype.__lookupGetter__'' (Some 1)),
      (''__lookupSetter__'', Builtin ''Object.prototype.__lookupSetter__'' (Some 1))]"

definition array_prototype_members :: props where
  "array_prototype_members =
     map (\<lambda>(n, a). (n, Builtin (''Array.prototype.'' @ n) (Some a)))
       [(''at'', 1), (''concat'', 1), (''copyWithin'', 2), (''entries'', 0),
        (''every'', 1), (''fill'', 1), (''filter'', 1), (''find'', 1),
        (''findIndex'', 1), (''findLast'', 1), (''findLastIndex'', 1), (''flat'', 0),
        (''flatMap'', 1), (''forEach'', 1), (''includes'', 1), (''indexOf'', 1),
        (''join'', 1), (''keys'', 0), (''lastIndexOf'', 1), (''map'', 1), (''pop'', 0),
        (''push'', 1), (''reduce'', 1), (''reduceRight'', 1), (''reverse'', 0),
        (''shift'', 0), (''slice'', 2), (''some'', 1), (''sort'', 1), (''splice'', 2),
        (''toLocaleString'', 0), (''toReversed'', 0), (''toSorted'', 1),
        (''toSpliced'', 2), (''toString'', 0), (''unshift'', 1), (''values'', 0),
        (''with'', 2)]
     @ [(''constructor'', Builtin ''Array'' (Some 1))]"

text \<open>What the prototype chain of the document answers for a key that is not an own
  property. The accessor \<open>__proto__\<close> of \<open>Object.prototype\<close> answers the prototype
  itself.\<close>

fun inherited :: "prototype \<Rightarrow> string \<Rightarrow> jsval" where
  "inherited ObjectPrototype k =
     (if k = ''__proto__'' then Builtin ''Object.prototype'' None
      else own_value object_prototype_members k)"
| "inherited (ArrayInstance xs t) k =
     (if is_array_index k \<and> index_value k < length xs then xs ! index_value k
      else if k = ''length'' then Num (int (length xs))
      else if k = ''tables'' \<and> t \<noteq> None then the t
      else if map_of array_prototype_members k \<noteq> None
        then own_value array_prototype_members k
      else if k = ''__proto__'' then Arr xs t
      else own_value object_prototype_members k)"

text \<open>\<open>data[k]\<close>\<close>

definition get :: "document \<Rightarrow> string \<Rightarrow> jsval" where
  "get data k =
     (case map_of (own data) k of
        Some v \<Rightarrow> v
      | None \<Rightarrow> inherited (proto data) k)"

text \<open>\<open>data[k] = xs\<close> for an array \<open>xs\<close>: an own property is overwritten; the key
  \<open>__proto__\<close>, when it is not an own property, reaches the setter of
  \<open>Object.prototype\<close>, which makes the array the prototype of the document and
  creates no property; any other key becomes a new own property.\<close>

definition assign_array :: "document \<Rightarrow> string \<Rightarrow> jsval list \<Rightarrow> document" where
  "assign_array data k xs =
     (if map_of (own data) k = None \<and> k = ''__proto__''
      then data\<lparr>proto := ArrayInstance xs None\<rparr>
      else data\<lparr>own := AList.update k (Arr xs None) (own data)\<rparr>)"

text \<open>\<open>delete data[k]\<close> removes an own property and nothing else.\<close>

definition delete_key :: "document \<Rightarrow> string \<Rightarrow> document" where
  "delete_key data k = data\<lparr>own := AList.delete k (own data)\<rparr>"

text \<open>
  The source edits the object or array that \<open>data[k]\<close> denotes in place (\<open>push\<close>,
  \<open>splice\<close>, an element or property assignment). With objects as values, the edited
  value \<open>v\<close> is put back where the lookup found the old one: in the own property, or
  in the replaced prototype (one of its elements, its \<open>tables\<close> property, or the
  prototype array itself under the key \<open>__proto__\<close>). The built-in members that a lookup
  can also answer are functions and numbers, which the source never edits.
\<close>

definition put_back :: "document \<Rightarrow> string \<Rightarrow> jsval \<Rightarrow> document" where
  "put_back data k v =
     (if map_of (own data) k \<noteq> None
      then data\<lparr>own := AList.update k v (own data)\<rparr>
      else (case proto data of
              ObjectPrototype \<Rightarrow> data
            | ArrayInstance xs t \<Rightarrow>
                if is_array_index k \<and> index_value k < length xs
                  then data\<lparr>proto := ArrayInstance (xs[index_value k := v]) t\<rparr>
                else if k = ''length'' then data
                else if k = ''tables'' \<and> t \<noteq> None
                  then data\<lparr>proto := ArrayInstance xs (Some v)\<rparr>
                else if map_of array_prototype_members k \<noteq> None then data
                else if k = ''__proto__''
                  then (case v of
                          Arr ys u \<Rightarrow> data\<lparr>proto := ArrayInstance ys u\<rparr>
                        | _ \<Rightarrow> data)
                else data))"

text \<open>\<open>Object.keys(data)\<close>\<close>

definition object_keys :: "document \<Rightarrow> string list" where
  "object_keys data = own_keys (own data)"


section \<open>The single-collection store (\<open>createDatabase\<close>)\<close>

text \<open>
  \<open>createDatabase(filename, collectionName, defaultData)\<close> opens the document with
  \<open>JSONFilePreset\<close> of the lowdb package: the parsed content of the file when the file
  exists (\<open>file = Some ps\<close>), the default \<open>{ [collectionName]: [], ...defaultData }\<close>
  otherwise. The operations it returns are closures over the document and the
  collection name; here each takes the name and the document and, when it edits the
  document, answers the document after the call next to its result. An exception is a
  result \<open>Inl\<close>; the document next to it is the one the exception leaves in memory.
  Predicates and callbacks passed by the caller are functions that do not edit the
  document.
\<close>

definition createDatabase :: "string \<Rightarrow> props \<Rightarrow> props option \<Rightarrow> document" where
  "createDatabase collectionName defaultData file =
     \<lparr>own = (case file of
               None \<Rightarrow> define_all [(collectionName, Arr [] None)] (entries_of defaultData)
             | Some ps \<Rightarrow> ps),
      proto = ObjectPrototype\<rparr>"

definition getAll :: "string \<Rightarrow> document \<Rightarrow> jsval" where
  "getAll collectionName data = get data collectionName"

definition getById :: "string \<Rightarrow> ident \<Rightarrow> document \<Rightarrow> error + jsval" where
  "getById collectionName i data =
     (case get data collectionName of
        Arr xs t \<Rightarrow> array_find (id_matches i) xs
      | _ \<Rightarrow> Inl TypeError)"

definition find_items ::
  "string \<Rightarrow> (jsval \<Rightarrow> error + bool) \<Rightarrow> document \<Rightarrow> error + jsval" where
  "find_items collectionName predicate data =
     (case get data collectionName of
        Arr xs t \<Rightarrow>
          (case array_filter predicate xs of
             Inl e \<Rightarrow> Inl e
           | Inr ys \<Rightarrow> Inr (Arr ys None))
      | _ \<Rightarrow> Inl TypeError)"

definition findOne ::
  "string \<Rightarrow> (jsval \<Rightarrow> error + bool) \<Rightarrow> document \<Rightarrow> error + jsval" where
  "findOne collectionName predicate data =
     (case get data collectionName of
        Arr xs t \<Rightarrow> array_find predicate xs
      | _ \<Rightarrow> Inl TypeError)"

definition add :: "string \<Rightarrow> jsval \<Rightarrow> document \<Rightarrow> (error + jsval) \<times> document" where
  "add collectionName item data =
     (case get data collectionName of
        Arr xs t \<Rightarrow> (Inr item, put_back data collectionName (Arr (xs @ [item]) t))
      | _ \<Rightarrow> (Inl TypeError, data))"

text \<open>\<open>update\<close> merges at the index \<open>findIndex\<close> answers and then looks the id up
  again in the edited collection; that second lookup is its result.\<close>

definition update ::
  "string \<Rightarrow> ident \<Rightarrow> props \<Rightarrow> document \<Rightarrow> (error + jsval) \<times> document" where
  "update collectionName i updates data =
     (case get data collectionName of
        Arr xs t \<Rightarrow>
          (case array_findIndex (id_matches i) xs of
             Inl e \<Rightarrow> (Inl e, data)
           | Inr index \<Rightarrow>
               (let data' =
                  (if index \<noteq> - 1
                   then put_back data collectionName
                          (Arr (xs[nat index := object_spread (xs ! nat index) updates]) t)
                   else data)
                in (getById collectionName i data', data')))
      | _ \<Rightarrow> (Inl TypeError, data))"

definition remove :: "string \<Rightarrow> ident \<Rightarrow> document \<Rightarrow> (error + jsval) \<times> document" where
  "remove collectionName i data =
     (case get data collectionName of
        Arr xs t \<Rightarrow>
          (case array_findIndex (id_matches i) xs of
             Inl e \<Rightarrow> (Inl e, data)
           | Inr index \<Rightarrow>
               if index \<noteq> - 1
               then (Inr (xs ! nat index),
                     put_back data collectionName (Arr (splice1 (nat index) xs) t))
               else (Inr Undefined, data))
      | _ \<Rightarrow> (Inl TypeError, data))"

definition count :: "string \<Rightarrow> document \<Rightarrow> error + jsval" where
  "count collectionName data = length_of (get data collectionName)"

definition clear :: "string \<Rightarrow> document \<Rightarrow> (error + unit) \<times> document" where
  "clear collectionName data = (Inr (), assign_array data collectionName [])"

definition query :: "string \<Rightarrow> (jsval \<Rightarrow> 'r) \<Rightarrow> document \<Rightarrow> 'r" where
  "query collectionName callback data = callback (get data collectionName)"

section \<open>The multi-table database (\<open>createMultiTableDatabase\<close>)\<close>

text \<open>The default document is \<open>{ ...initialTables, _metadata: { created, version,
  tables: Object.keys(initialTables) } }\<close>; \<open>now\<close> is the creation time stamp.\<close>

definition createMultiTableDatabase :: "string \<Rightarrow> props \<Rightarrow> props option \<Rightarrow> document" where
  "createMultiTableDatabase now initialTables file =
     \<lparr>own = (case file of
               None \<Rightarrow>
                 AList.update ''_metadata''
                   (Obj [(''created'', Str now),
                         (''version'', Str ''1.0.0''),
                         (''tables'', Arr (map Str (own_keys initialTables)) None)])
                   (define_all [] (entries_of initialTables))
             | Some ps \<Rightarrow> ps),
      proto = ObjectPrototype\<rparr>"

definition ensureTable :: "string \<Rightarrow> document \<Rightarrow> error + unit" where
  "ensureTable tableName data =
     (if \<not> truthy (get data tableName) then Inl (TableDoesNotExist tableName)
      else Inr ())"

text \<open>\<open>table(tableName)\<close> builds an object of closures and evaluates nothing else; a
  handle is the table name. Each operation of the handle calls \<open>ensureTable\<close> and then
  does what the operation of the single-collection store does.\<close>

definition table_getAll :: "string \<Rightarrow> document \<Rightarrow> error + jsval" where
  "table_getAll tableName data =
     (case ensureTable tableName data of
        Inl e \<Rightarrow> Inl e
      | Inr _ \<Rightarrow> Inr (getAll tableName data))"

definition table_getById :: "string \<Rightarrow> ident \<Rightarrow> document \<Rightarrow> error + jsval" where
  "table_getById tableName i data =
     (case ensureTable tableName data of
        Inl e \<Rightarrow> Inl e
      | Inr _ \<Rightarrow> getById tableName i data)"

definition table_find ::
  "string \<Rightarrow> (jsval \<Rightarrow> error + bool) \<Rightarrow> document \<Rightarrow> error + jsval" where
  "table_find tableName predicate data =
     (case ensureTable tableName data of
        Inl e \<Rightarrow> Inl e
      | Inr _ \<Rightarrow> find_items tableName predicate data)"

definition table_findOne ::
  "string \<Rightarrow> (jsval \<Rightarrow> error + bool) \<Rightarrow> document \<Rightarrow> error + jsval" where
  "table_findOne tableName predicate data =
     (case ensureTable tableName data of
        Inl e \<Rightarrow> Inl e
      | Inr _ \<Rightarrow> findOne tableName predicate data)"

definition table_add :: "string \<Rightarrow> jsval \<Rightarrow> document \<Rightarrow> (error + jsval) \<times> document" where
  "table_add tableName item data =
     (case ensureTable tableName data of
        Inl e \<Rightarrow> (Inl e, data)
      | Inr _ \<Rightarrow> add tableName item data)"

definition table_update ::
  "string \<Rightarrow> ident \<Rightarrow> props \<Rightarrow> document \<Rightarrow> (error + jsval) \<times> document" where
  "table_update tableName i updates data =
     (case ensureTable tableName data of
        Inl e \<Rightarrow> (Inl e, data)
      | Inr _ \<Rightarrow> update tableName i updates data)"

definition table_remove :: "string \<Rightarrow> ident \<Rightarrow> document \<Rightarrow> (error + jsval) \<times> document" where
  "table_remove tableName i data =
     (case ensureTable tableName data of
        Inl e \<Rightarrow> (Inl e, data)
      | Inr _ \<Rightarrow> remove tableName i data)"

definition table_count :: "string \<Rightarrow> document \<Rightarrow> error + jsval" where
  "table_count tableName data =
     (case ensureTable tableName data of
        Inl e \<Rightarrow> Inl e
      | Inr _ \<Rightarrow> count tableName data)"

definition table_clear :: "string \<Rightarrow> document \<Rightarrow> (error + unit) \<times> document" where
  "table_clear tableName data =
     (case ensureTable tableName data of
        Inl e \<Rightarrow> (Inl e, data)
      | Inr _ \<Rightarrow> clear tableName data)"

definition table_query :: "string \<Rightarrow> (jsval \<Rightarrow> 'r) \<Rightarrow> document \<Rightarrow> error + 'r" where
  "table_query tableName callback data =
     (case ensureTable tableName data of
        Inl e \<Rightarrow> Inl e
      | Inr _ \<Rightarrow> Inr (query tableName callback data))"

definition table_exists :: "string \<Rightarrow> document \<Rightarrow> bool" where
  "table_exists tableName data = truthy (get data tableName)"

definition listTables :: "document \<Rightarrow> string list" where
  "listTables data = filter (\<lambda>key. key \<noteq> ''_metadata'') (object_keys data)"

text \<open>
  \<open>createTable\<close> and \<open>dropTable\<close> end with the same statement,
  \<open>if (data._metadata) data._metadata.tables = Object.keys(data).filter(...)\<close>.
  The assignment adds or overwrites the property on an object, adds it to an array,
  and raises \<open>TypeError\<close> on a primitive (modules are strict code). A document without
  a truthy \<open>_metadata\<close> is left alone.
\<close>

definition record_tables :: "document \<Rightarrow> (error + unit) \<times> document" where
  "record_tables data =
     (if truthy (get data ''_metadata'')
      then (case get data ''_metadata'' of
              Obj ps \<Rightarrow>
                (Inr (),
                 put_back data ''_metadata''
                   (Obj (AList.update ''tables'' (Arr (map Str (listTables data)) None) ps)))
            | Arr xs t \<Rightarrow>
                (Inr (),
                 put_back data ''_metadata''
                   (Arr xs (Some (Arr (map Str (listTables data)) None))))
            | Builtin n a \<Rightarrow> (Inr (), data)
            | _ \<Rightarrow> (Inl TypeError, data))
      else (Inr (), data))"

definition createTable ::
  "string \<Rightarrow> jsval list option \<Rightarrow> document \<Rightarrow> (error + unit) \<times> document" where
  "createTable tableName initialData data =
     record_tables
       (assign_array data tableName (case initialData of None \<Rightarrow> [] | Some xs \<Rightarrow> xs))"

definition dropTable :: "string \<Rightarrow> document \<Rightarrow> (error + unit) \<times> document" where
  "dropTable tableName data = record_tables (delete_key data tableName)"


section \<open>Observations used to state the properties\<close>

text \<open>A plain object or an array, the two kinds of value of the document that can
  carry a property \<open>tables\<close>.\<close>

fun is_object :: "jsval \<Rightarrow> bool" where
  "is_object (Obj ps) = True"
| "is_object (Arr xs t) = True"
| "is_object v = False"

text \<open>What a caller reads as \<open>raw.data._metadata.tables\<close>.\<close>

definition metadata_tables :: "document \<Rightarrow> error + jsval" where
  "metadata_tables data =
     (case get data ''_metadata'' of
        Undefined \<Rightarrow> Inl TypeError
      | Null \<Rightarrow> Inl TypeError
      | Obj ps \<Rightarrow> Inr (own_value ps ''tables'')
      | Arr xs t \<Rightarrow> Inr (case t of None \<Rightarrow> Undefined | Some v \<Rightarrow> v)
      | _ \<Rightarrow> Inr Undefined)"

text \<open>The array of strings that \<open>listTables()\<close> returns.\<close>

definition listTables_result :: "document \<Rightarrow> jsval" where
  "listTables_result data = Arr (map Str (listTables data)) None"

text \<open>No element of a collection has the id \<open>i\<close>: the callback of \<open>getById\<close> answers
  \<open>false\<close> on each of them.\<close>

definition no_match :: "ident \<Rightarrow> jsval list \<Rightarrow> bool" where
  "no_match i xs = list_all (\<lambda>x. id_matches i x = Inr False) xs"

text \<open>A sequence of \<open>add\<close> and \<open>remove\<close> calls on a single-collection store, the
  document it leaves, the number of its \<open>add\<close> calls, and the number of its \<open>remove\<close>
  calls that returned a record.\<close>

datatype operation = Add jsval | Remove ident

fun run :: "string \<Rightarrow> operation list \<Rightarrow> document \<Rightarrow> document" where
  "run cn [] data = data"
| "run cn (Add r # ops) data = run cn ops (snd (add cn r data))"
| "run cn (Remove i # ops) data = run cn ops (snd (remove cn i data))"

fun add_calls :: "operation list \<Rightarrow> nat" where
  "add_calls [] = 0"
| "add_calls (Add r # ops) = Suc (add_calls ops)"
| "add_calls (Remove i # ops) = add_calls ops"

fun returned_record :: "error + jsval \<Rightarrow> bool" where
  "returned_record (Inl e) = False"
| "returned_record (Inr v) = (v \<noteq> Undefined)"

fun successful_removes :: "string \<Rightarrow> operation list \<Rightarrow> document \<Rightarrow> nat" where
  "successful_removes cn [] data = 0"
| "successful_removes cn (Add r # ops) data =
     successful_removes cn ops (snd (add cn r data))"
| "successful_removes cn (Remove i # ops) data =
     (if returned_record (fst (remove cn i data)) then 1 else 0)
     + successful_removes cn ops (snd (remove cn i data))"

subsection \<open>Example data\<close>

definition user_A :: jsval where
  "user_A = Obj [(''id'', Num 1), (''name'', Str ''A'')]"

definition user_B :: jsval where
  "user_B = Obj [(''id'', Num 2), (''name'', Str ''B'')]"

definition user_A2 :: jsval where
  "user_A2 = Obj [(''id'', Num 1), (''name'', Str ''A2'')]"

text \<open>A second record with the id of \<open>user_A\<close>.\<close>

definition duplicate_of_A :: jsval where
  "duplicate_of_A = Obj [(''id'', Num 1), (''name'', Str ''B'')]"

text \<open>A single-collection store \<open>items\<close> that holds \<open>user_A\<close>.\<close>

definition items_store :: document where
  "items_store = createDatabase ''items'' [] (Some [(''items'', Arr [user_A] None)])"

text \<open>A single-collection store \<open>items\<close> just created on a new file, and a
  sequence of two \<open>add\<close> calls, a \<open>remove\<close> that finds its record and one that does
  not.\<close>

definition empty_store :: document where
  "empty_store = createDatabase ''items'' [] None"

definition example_operations :: "operation list" where
  "example_operations = [Add user_A, Add user_B, Remove (IdNum 1), Remove (IdNum 999)]"

text \<open>A multi-table database just created on a new file, without initial tables.\<close>

definition fresh_database :: document where
  "fresh_database = createMultiTableDatabase ''2024-01-01T00:00:00.000Z'' [] None"

text \<open>The database after \<open>createTable('users')\<close>, and after a further
  \<open>dropTable('_metadata')\<close>: one table and no metadata.\<close>

definition users_database :: document where
  "users_database = snd (createTable ''users'' None fresh_database)"

definition database_without_metadata :: document where
  "database_without_metadata = snd (dropTable ''_metadata'' users_database)"

text \<open>The database with the table \<open>users\<close> holding two records.\<close>

definition populated_database :: document where
  "populated_database =
     snd (table_add ''users'' user_B (snd (table_add ''users'' user_A users_database)))"

section \<open>Facts about property lookup and the array methods\<close>

lemma own_value_update [simp]:
  "own_value (AList.update k v ps) k' = (if k' = k then v else own_value ps k')"
  by (simp add: own_value_def update_conv')

lemma not_array_index_names [simp]:
  "\<not> is_array_index ''__proto__''" "\<not> is_array_index ''_metadata''"
  "\<not> is_array_index ''length''" "\<not> is_array_index ''tables''"
  by (simp_all add: is_array_index_def is_digit_def)

lemma own_value_cases: "own_value ps k = Undefined \<or> (k, own_value ps k) \<in> set ps"
  by (auto simp: own_value_def split: option.splits dest: map_of_SomeD)

lemma object_prototype_members_builtin:
  "(k, v) \<in> set object_prototype_members \<Longrightarrow> \<exists>n a. v = Builtin n a"
  by (auto simp: object_prototype_members_def)

lemma array_prototype_members_builtin:
  "(k, v) \<in> set array_prototype_members \<Longrightarrow> \<exists>n a. v = Builtin n a"
  by (auto simp: array_prototype_members_def)

lemma object_prototype_member_not_array:
  "own_value object_prototype_members k \<noteq> Arr xs t"
  using own_value_cases [of object_prototype_members k]
    object_prototype_members_builtin [of k "own_value object_prototype_members k"]
  by auto

lemma array_prototype_member_not_array:
  "own_value array_prototype_members k \<noteq> Arr xs t"
  using own_value_cases [of array_prototype_members k]
    array_prototype_members_builtin [of k "own_value array_prototype_members k"]
  by auto

lemma inherited_ObjectPrototype_not_array:
  "inherited ObjectPrototype k \<noteq> Arr xs t"
  by (simp add: object_prototype_member_not_array)

lemma prototype_members_special [simp]:
  "map_of array_prototype_members ''_metadata'' = None"
  "map_of array_prototype_members ''__proto__'' = None"
  "map_of object_prototype_members ''_metadata'' = None"
  "map_of object_prototype_members ''__proto__'' = None"
  by (simp_all add: array_prototype_members_def object_prototype_members_def)


text \<open>An array that a lookup has found and that is edited in place is what the same
  lookup answers afterwards, wherever it was found.\<close>

lemma get_put_back:
  assumes "get data k = Arr xs t"
  shows "get (put_back data k (Arr ys u)) k = Arr ys u"
proof (cases "map_of (own data) k")
  case (Some v)
  then show ?thesis by (simp add: get_def put_back_def update_conv')
next
  case None
  show ?thesis
  proof (cases "proto data")
    case ObjectPrototype
    with None assms show ?thesis
      using inherited_ObjectPrototype_not_array [of k xs t] by (simp add: get_def)
  next
    case (ArrayInstance pxs pt)
    from None assms ArrayInstance have inh: "inherited (ArrayInstance pxs pt) k = Arr xs t"
      by (simp add: get_def)
    have own': "\<And>p. map_of (own (data\<lparr>proto := p\<rparr>)) k = None"
      using None by simp
    consider (elem) "is_array_index k" "index_value k < length pxs"
      | (len) "\<not> (is_array_index k \<and> index_value k < length pxs)" "k = ''length''"
      | (tab) "\<not> (is_array_index k \<and> index_value k < length pxs)" "k \<noteq> ''length''"
          "k = ''tables''" "pt \<noteq> None"
      | (mem) "\<not> (is_array_index k \<and> index_value k < length pxs)" "k \<noteq> ''length''"
          "\<not> (k = ''tables'' \<and> pt \<noteq> None)" "map_of array_prototype_members k \<noteq> None"
      | (self) "\<not> (is_array_index k \<and> index_value k < length pxs)" "k \<noteq> ''length''"
          "\<not> (k = ''tables'' \<and> pt \<noteq> None)" "map_of array_prototype_members k = None"
          "k = ''__proto__''"
      | (obj) "\<not> (is_array_index k \<and> index_value k < length pxs)" "k \<noteq> ''length''"
          "\<not> (k = ''tables'' \<and> pt \<noteq> None)" "map_of array_prototype_members k = None"
          "k \<noteq> ''__proto__''"
      by blast
    then show ?thesis
    proof cases
      case elem
      then have "put_back data k (Arr ys u)
          = data\<lparr>proto := ArrayInstance (pxs[index_value k := Arr ys u]) pt\<rparr>"
        using None ArrayInstance by (simp add: put_back_def)
      with elem None show ?thesis by (simp add: get_def)
    next
      case len
      then have "inherited (ArrayInstance pxs pt) k = Num (int (length pxs))"
        by auto
      with inh show ?thesis by simp
    next
      case tab
      then have "put_back data k (Arr ys u) = data\<lparr>proto := ArrayInstance pxs (Some (Arr ys u))\<rparr>"
        using None ArrayInstance by (simp add: put_back_def)
      with tab None show ?thesis by (simp add: get_def)
    next
      case mem
      then have "inherited (ArrayInstance pxs pt) k = own_value array_prototype_members k"
        by auto
      with inh array_prototype_member_not_array [of k xs t] show ?thesis by simp
    next
      case self
      then have "put_back data k (Arr ys u) = data\<lparr>proto := ArrayInstance ys u\<rparr>"
        using None ArrayInstance by (simp add: put_back_def)
      with self None show ?thesis by (simp add: get_def)
    next
      case obj
      then have "inherited (ArrayInstance pxs pt) k = own_value object_prototype_members k"
        by auto
      with inh object_prototype_member_not_array [of k xs t] show ?thesis by simp
    qed
  qed
qed

lemma inherited_metadata [simp]: "inherited p ''_metadata'' = Undefined"
  by (cases p) (simp_all add: own_value_def)

lemma get_metadata_own:
  "get data ''_metadata'' = own_value (own data) ''_metadata''"
  by (simp add: get_def own_value_def split: option.splits)

lemma array_findIndex_Cons_miss:
  "p x = Inr False \<Longrightarrow>
     array_findIndex p (x # xs) =
       (case array_findIndex p xs of
          Inl e \<Rightarrow> Inl e
        | Inr j \<Rightarrow> Inr (if j = - 1 then - 1 else j + 1))"
  by simp

lemma array_findIndex_Cons_hit: "p x = Inr True \<Longrightarrow> array_findIndex p (x # xs) = Inr 0"
  by simp

lemma array_findIndex_Cons_error: "p x = Inl e \<Longrightarrow> array_findIndex p (x # xs) = Inl e"
  by simp

text \<open>When \<open>findIndex\<close> answers an index, the callback is true at that index, false on
  every element before it, and has raised on none of them.\<close>

lemma array_findIndex_found:
  "array_findIndex p xs = Inr j \<Longrightarrow> j \<noteq> - 1 \<Longrightarrow>
     0 \<le> j \<and> nat j < length xs \<and> p (xs ! nat j) = Inr True
     \<and> list_all (\<lambda>x. p x = Inr False) (take (nat j) xs)"
proof (induction xs arbitrary: j)
  case Nil
  then show ?case by simp
next
  case (Cons x xs)
  show ?case
  proof (cases "p x")
    case (Inl e)
    with Cons.prems show ?thesis by (simp only: array_findIndex_Cons_error) simp
  next
    case (Inr b)
    show ?thesis
    proof (cases b)
      case True
      with Inr have px: "p x = Inr True" by simp
      with Cons.prems have "j = 0" by (simp only: array_findIndex_Cons_hit) simp
      with px show ?thesis by simp
    next
      case False
      with Inr have px: "p x = Inr False" by simp
      show ?thesis
      proof (cases "array_findIndex p xs")
        case (Inl e)
        with px Cons.prems show ?thesis by (simp only: array_findIndex_Cons_miss) simp
      next
        case (Inr j')
        with px Cons.prems(1) have jj: "j = (if j' = - 1 then - 1 else j' + 1)"
          by (simp only: array_findIndex_Cons_miss) simp
        with Cons.prems(2) have j': "j' \<noteq> - 1" and j: "j = j' + 1"
          by (simp_all split: if_splits)
        from Cons.IH [OF Inr j'] have ih: "0 \<le> j'" "nat j' < length xs"
          "p (xs ! nat j') = Inr True"
          "list_all (\<lambda>x. p x = Inr False) (take (nat j') xs)" by simp_all
        have n: "nat (j' + 1) = Suc (nat j')" using ih(1) by simp
        show ?thesis unfolding j n using ih px by simp
      qed
    qed
  qed
qed

lemma array_findIndex_none:
  "list_all (\<lambda>x. p x = Inr False) xs \<Longrightarrow> array_findIndex p xs = Inr (- 1)"
proof (induction xs)
  case Nil
  then show ?case by simp
next
  case (Cons x xs)
  then have px: "p x = Inr False" and rest: "array_findIndex p xs = Inr (- 1)" by simp_all
  show ?case by (simp only: array_findIndex_Cons_miss [of p x, OF px] rest) simp
qed

lemma array_find_none:
  "list_all (\<lambda>x. p x = Inr False) xs \<Longrightarrow> array_find p xs = Inr Undefined"
  by (induction xs) auto

lemma array_find_first:
  "list_all (\<lambda>x. p x = Inr False) pre \<Longrightarrow> p x = Inr True \<Longrightarrow>
     array_find p (pre @ x # post) = Inr x"
  by (induction pre) auto

lemma array_find_skip:
  "list_all (\<lambda>x. p x = Inr False) pre \<Longrightarrow> array_find p (pre @ rest) = array_find p rest"
  by (induction pre) auto

lemma set_own_keys [simp]: "set (own_keys ps) = fst ` set ps"
  by (auto simp: own_keys_def)

lemma map_of_define_all:
  assumes "\<And>k v. (k, v) \<in> set es \<Longrightarrow> v = f k"
  shows "map_of (define_all acc es) k = (if k \<in> fst ` set es then Some (f k) else map_of acc k)"
  using assms
proof (induction es arbitrary: acc)
  case Nil
  then show ?case by (simp add: define_all_def)
next
  case (Cons e es)
  obtain k' v' where e: "e = (k', v')" by (cases e)
  have v': "v' = f k'" using Cons.prems [of k' v'] e by simp
  have "define_all acc (e # es) = define_all (AList.update k' v' acc) es"
    by (simp add: define_all_def e)
  moreover have "map_of (define_all (AList.update k' v' acc) es) k
      = (if k \<in> fst ` set es then Some (f k) else map_of (AList.update k' v' acc) k)"
    using Cons.IH [of "AList.update k' v' acc"] Cons.prems by simp
  ultimately show ?case using e v' by (auto simp: update_conv')
qed

lemma map_of_entries_of:
  "(k, v) \<in> set (entries_of ps) \<Longrightarrow> v = own_value ps k"
  by (auto simp: entries_of_def)

lemma fst_set_entries_of [simp]: "fst ` set (entries_of ps) = fst ` set ps"
  by (force simp: entries_of_def image_iff)

lemma own_value_define_all_entries:
  "own_value (define_all acc (entries_of ps)) k
     = (if k \<in> fst ` set ps then own_value ps k else own_value acc k)"
  using map_of_define_all [of "entries_of ps" "own_value ps" acc k] map_of_entries_of [of _ _ ps]
  by (simp add: own_value_def)

lemma own_value_Nil [simp]: "own_value [] k = Undefined"
  by (simp add: own_value_def)

lemma own_value_absent: "k \<notin> fst ` set ps \<Longrightarrow> own_value ps k = Undefined"
  by (simp add: own_value_def map_of_eq_None_iff [THEN iffD2])

text \<open>The fields of \<open>{...old, ...updates}\<close>: those of \<open>updates\<close> where it has the key,
  those of \<open>old\<close> elsewhere.\<close>

lemma object_spread_Obj:
  assumes "object_spread (Obj ps) updates = Obj qs"
  shows "own_value qs k
     = (if k \<in> fst ` set updates then own_value updates k else own_value ps k)"
proof -
  have qs: "qs = define_all (define_all [] (entries_of ps)) (entries_of updates)"
    using assms by (simp add: object_spread_def)
  show ?thesis
  proof (cases "k \<in> fst ` set ps")
    case True
    then show ?thesis unfolding qs by (simp add: own_value_define_all_entries)
  next
    case False
    then show ?thesis unfolding qs
      by (simp add: own_value_define_all_entries own_value_absent)
  qed
qed

lemma id_matches_True_Obj:
  "id_matches i x = Inr True \<Longrightarrow> \<exists>ps. x = Obj ps \<and> strict_equals (own_value ps ''id'') i"
  by (cases x) (auto simp: id_matches_def)


lemma get_same_after_add:
  "get data cn = Arr xs t \<Longrightarrow> get (snd (add cn r data)) cn = Arr (xs @ [r]) t"
  by (simp add: add_def get_put_back)

lemma fst_add: "get data cn = Arr xs t \<Longrightarrow> fst (add cn r data) = Inr r"
  by (simp add: add_def)

lemma getById_array: "get data cn = Arr xs t \<Longrightarrow> getById cn i data = array_find (id_matches i) xs"
  by (simp add: getById_def)

lemma update_no_match:
  assumes "get data cn = Arr xs t" "no_match i xs"
  shows "update cn i updates data = (Inr Undefined, data)"
  using assms
  by (simp add: update_def no_match_def array_findIndex_none getById_def array_find_none)

lemma remove_no_match:
  assumes "get data cn = Arr xs t" "no_match i xs"
  shows "remove cn i data = (Inr Undefined, data)"
  using assms by (simp add: remove_def no_match_def array_findIndex_none)

lemma length_splice1: "n < length xs \<Longrightarrow> length (splice1 n xs) = length xs - 1"
  by (simp add: splice1_def)

lemma remove_found:
  assumes "get data cn = Arr xs t" "array_findIndex (id_matches i) xs = Inr j" "j \<noteq> - 1"
  shows "remove cn i data
     = (Inr (xs ! nat j), put_back data cn (Arr (splice1 (nat j) xs) t))"
  using assms by (simp add: remove_def)

lemma remove_error:
  assumes "get data cn = Arr xs t" "array_findIndex (id_matches i) xs = Inl e"
  shows "remove cn i data = (Inl e, data)"
  using assms by (simp add: remove_def)

lemma remove_not_found:
  assumes "get data cn = Arr xs t" "array_findIndex (id_matches i) xs = Inr (- 1)"
  shows "remove cn i data = (Inr Undefined, data)"
  using assms by (simp add: remove_def)

lemma matched_not_Undefined: "id_matches i x = Inr True \<Longrightarrow> x \<noteq> Undefined"
  by (auto simp: id_matches_def)

text \<open>The length of the collection after a sequence of \<open>add\<close> and \<open>remove\<close> calls,
  from any starting collection.\<close>

lemma count_after_run:
  "get data cn = Arr xs t \<Longrightarrow>
     \<exists>ys. get (run cn ops data) cn = Arr ys t
        \<and> int (length ys)
            = int (length xs) + int (add_calls ops) - int (successful_removes cn ops data)"
proof (induction ops arbitrary: data xs)
  case Nil
  then show ?case by simp
next
  case (Cons operation ops)
  show ?case
  proof (cases operation)
    case (Add r)
    have "get (snd (add cn r data)) cn = Arr (xs @ [r]) t"
      using Cons.prems by (rule get_same_after_add)
    from Cons.IH [OF this] Add show ?thesis by auto
  next
    case (Remove i)
    show ?thesis
    proof (cases "array_findIndex (id_matches i) xs")
      case (Inl e)
      have "remove cn i data = (Inl e, data)"
        using Cons.prems Inl by (rule remove_error)
      with Cons.IH [OF Cons.prems] Remove show ?thesis by simp
    next
      case (Inr j)
      show ?thesis
      proof (cases "j = - 1")
        case True
        with Inr have "remove cn i data = (Inr Undefined, data)"
          using Cons.prems remove_not_found by simp
        with Cons.IH [OF Cons.prems] Remove show ?thesis by simp
      next
        case False
        from array_findIndex_found [OF Inr False]
        have j: "nat j < length xs" and hit: "id_matches i (xs ! nat j) = Inr True"
          by simp_all
        have r: "remove cn i data
            = (Inr (xs ! nat j), put_back data cn (Arr (splice1 (nat j) xs) t))"
          using Cons.prems Inr False by (rule remove_found)
        have g: "get (put_back data cn (Arr (splice1 (nat j) xs) t)) cn
            = Arr (splice1 (nat j) xs) t"
          using Cons.prems by (rule get_put_back)
        from Cons.IH [OF g] obtain ys where
          ys: "get (run cn ops (put_back data cn (Arr (splice1 (nat j) xs) t))) cn = Arr ys t"
            "int (length ys) = int (length (splice1 (nat j) xs)) + int (add_calls ops)
               - int (successful_removes cn ops
                        (put_back data cn (Arr (splice1 (nat j) xs) t)))"
          by blast
        have "int (length (splice1 (nat j) xs)) = int (length xs) - 1"
          using j by (simp add: length_splice1)
        with ys r Remove matched_not_Undefined [OF hit] show ?thesis by simp
      qed
    qed
  qed
qed

lemma count_array: "get data cn = Arr ys t \<Longrightarrow> count cn data = Inr (Num (int (length ys)))"
  by (simp add: count_def)

text \<open>When \<open>updates\<close> has no \<open>id\<close>, or the id it is called with, \<open>update\<close> returns
  the merged record, which is the record stored at the first index that matched.\<close>

lemma update_found:
  assumes g: "get data cn = Arr xs t"
    and f: "array_findIndex (id_matches i) xs = Inr j" and j: "j \<noteq> - 1"
    and u: "''id'' \<notin> fst ` set updates \<or> strict_equals (own_value updates ''id'') i"
  shows "update cn i updates data
     = (Inr (object_spread (xs ! nat j) updates),
        put_back data cn (Arr (xs[nat j := object_spread (xs ! nat j) updates]) t))"
proof -
  let ?m = "object_spread (xs ! nat j) updates"
  let ?data' = "put_back data cn (Arr (xs[nat j := ?m]) t)"
  from array_findIndex_found [OF f j]
  have n: "nat j < length xs" and hit: "id_matches i (xs ! nat j) = Inr True"
    and pre: "list_all (\<lambda>x. id_matches i x = Inr False) (take (nat j) xs)"
    by simp_all
  from id_matches_True_Obj [OF hit] obtain ps where
    ps: "xs ! nat j = Obj ps" "strict_equals (own_value ps ''id'') i" by blast
  obtain qs where qs: "?m = Obj qs" by (simp add: object_spread_def)
  have "own_value qs ''id''
      = (if ''id'' \<in> fst ` set updates then own_value updates ''id'' else own_value ps ''id'')"
    using object_spread_Obj [of ps updates qs] qs ps(1) by simp
  with u ps(2) have "strict_equals (own_value qs ''id'') i" by auto
  then have m: "id_matches i ?m = Inr True" by (simp add: qs id_matches_def)
  have "xs[nat j := ?m] = take (nat j) xs @ ?m # drop (Suc (nat j)) xs"
    using n by (rule upd_conv_take_nth_drop)
  then have "array_find (id_matches i) (xs[nat j := ?m]) = Inr ?m"
    using array_find_first [OF pre m] by simp
  moreover have "get ?data' cn = Arr (xs[nat j := ?m]) t"
    using g by (rule get_put_back)
  ultimately have "getById cn i ?data' = Inr ?m" by (simp add: getById_def)
  with g f j show ?thesis by (simp add: update_def Let_def)
qed

section \<open>The single-collection store: verified properties\<close>

lemma items_store_collection: "get items_store ''items'' = Arr [user_A] None"
  by (simp add: items_store_def createDatabase_def get_def)

lemma id_matches_examples [simp]:
  "id_matches (IdNum 1) user_A = Inr True"
  "id_matches (IdNum 1) duplicate_of_A = Inr True"
  "id_matches (IdNum 1) user_A2 = Inr True"
  "id_matches (IdNum 1) user_B = Inr False"
  "id_matches (IdNum 2) user_A = Inr False"
  "id_matches (IdNum 2) user_B = Inr True"
  by (simp_all add: id_matches_def user_A_def user_A2_def user_B_def duplicate_of_A_def own_value_def)

text \<open>
  Claim C5. \<open>add(r)\<close> on a store whose collection is the array \<open>xs\<close> returns \<open>r\<close> and
  leaves the collection \<open>xs @ [r]\<close>: the records that were there keep their positions
  and \<open>r\<close> is last, whatever ids occur in \<open>xs\<close> (nothing is rejected or deduplicated).
  When the collection then holds several records with the id \<open>i\<close>, \<open>getById(i)\<close>
  returns the first of them in collection order.
\<close>

theorem add_appends_and_keeps_duplicates:
  assumes "get data cn = Arr xs t"
  shows "fst (add cn r data) = Inr r
     \<and> getAll cn (snd (add cn r data)) = Arr (xs @ [r]) t
     \<and> (\<forall>pre x post. xs @ [r] = pre @ x # post \<and> no_match i pre \<and> id_matches i x = Inr True
           \<longrightarrow> getById cn i (snd (add cn r data)) = Inr x)"
proof -
  have g: "get (snd (add cn r data)) cn = Arr (xs @ [r]) t"
    using assms by (rule get_same_after_add)
  have "getById cn i (snd (add cn r data)) = Inr x"
    if "xs @ [r] = pre @ x # post" "no_match i pre" "id_matches i x = Inr True"
    for pre x post
    using that g array_find_first [of "id_matches i" pre x post]
    by (simp add: getById_def no_match_def)
  with g assms show ?thesis by (simp add: getAll_def fst_add)
qed

text \<open>The store \<open>items\<close> holding \<open>user_A\<close>, to which a second record with id \<open>1\<close> is
  added.\<close>

theorem add_appends_and_keeps_duplicates_witness:
  "get items_store ''items'' = Arr [user_A] None
   \<and> fst (add ''items'' duplicate_of_A items_store) = Inr duplicate_of_A
   \<and> getAll ''items'' (snd (add ''items'' duplicate_of_A items_store))
        = Arr [user_A, duplicate_of_A] None
   \<and> getById ''items'' (IdNum 1) (snd (add ''items'' duplicate_of_A items_store)) = Inr user_A"
proof -
  note inst = add_appends_and_keeps_duplicates
    [OF items_store_collection, of duplicate_of_A "IdNum 1"]
  from inst have "getById ''items'' (IdNum 1) (snd (add ''items'' duplicate_of_A items_store))
      = Inr user_A"
    by (elim conjE allE [of _ "[]"] allE [of _ user_A] allE [of _ "[duplicate_of_A]"])
      (simp add: no_match_def)
  with inst items_store_collection show ?thesis by simp
qed

text \<open>
  Claim C6. When no record of the collection has the id \<open>i\<close>, \<open>update(i, updates)\<close> and
  \<open>remove(i)\<close> return \<open>undefined\<close> without raising, and the document, hence \<open>count()\<close>
  and the content of the collection, is unchanged.
\<close>

theorem missing_id_leaves_store_unchanged:
  assumes "get data cn = Arr xs t" and "no_match i xs"
  shows "update cn i updates data = (Inr Undefined, data)
     \<and> remove cn i data = (Inr Undefined, data)
     \<and> count cn (snd (update cn i updates data)) = count cn data
     \<and> count cn (snd (remove cn i data)) = count cn data
     \<and> getAll cn (snd (update cn i updates data)) = Arr xs t
     \<and> getAll cn (snd (remove cn i data)) = Arr xs t"
  using assms by (simp add: update_no_match remove_no_match getAll_def)

text \<open>The store \<open>items\<close> holding \<open>user_A\<close>, asked for the id \<open>999\<close>.\<close>

theorem missing_id_leaves_store_unchanged_witness:
  "no_match (IdNum 999) [user_A]
   \<and> update ''items'' (IdNum 999) [(''name'', Str ''Z'')] items_store = (Inr Undefined, items_store)
   \<and> remove ''items'' (IdNum 999) items_store = (Inr Undefined, items_store)
   \<and> count ''items'' items_store = Inr (Num 1)"
proof -
  have n: "no_match (IdNum 999) [user_A]"
    by (simp add: no_match_def id_matches_def user_A_def own_value_def)
  from missing_id_leaves_store_unchanged [OF items_store_collection n, of "[(''name'', Str ''Z'')]"]
  show ?thesis using n items_store_collection by (simp add: count_def)
qed

text \<open>
  Claim C4 as stated (after \<open>add(r)\<close>, \<open>getById(r.id)\<close> returns \<open>r\<close>, for every record and
  every store state) fails when the collection already holds a record with that id:
  \<open>add\<close> does not check for duplicates and \<open>getById\<close> returns the first match, which is
  the older record.
\<close>

theorem getById_after_add_counterexample:
  "id_matches (IdNum 1) duplicate_of_A = Inr True
   \<and> getById ''items'' (IdNum 1) (snd (add ''items'' duplicate_of_A items_store)) = Inr user_A
   \<and> getById ''items'' (IdNum 1) (snd (add ''items'' duplicate_of_A items_store))
        \<noteq> Inr duplicate_of_A"
proof -
  have "get (snd (add ''items'' duplicate_of_A items_store)) ''items''
      = Arr ([user_A] @ [duplicate_of_A]) None"
    using items_store_collection by (rule get_same_after_add)
  then have "getById ''items'' (IdNum 1) (snd (add ''items'' duplicate_of_A items_store))
      = Inr user_A"
    by (simp add: getById_def)
  moreover have "user_A \<noteq> duplicate_of_A"
    by (simp add: user_A_def duplicate_of_A_def)
  ultimately show ?thesis by simp
qed

text \<open>
  Claim C4, amended. For a record \<open>r\<close> whose id is \<open>i\<close>, and a store in which no record
  has the id \<open>i\<close> before the call, \<open>getById(i)\<close> returns \<open>r\<close> immediately after
  \<open>add(r)\<close>; nothing is reloaded, the lookup reads the document \<open>add\<close> has left.
\<close>

theorem getById_after_add:
  assumes "get data cn = Arr xs t" and "no_match i xs" and "id_matches i r = Inr True"
  shows "getById cn i (snd (add cn r data)) = Inr r"
proof -
  have "get (snd (add cn r data)) cn = Arr (xs @ [r]) t"
    using assms(1) by (rule get_same_after_add)
  then show ?thesis
    using array_find_first [of "id_matches i" xs r "[]"] assms(2,3)
    by (simp add: getById_def no_match_def)
qed

text \<open>\<open>user_B\<close> added to the store that holds \<open>user_A\<close>.\<close>

theorem getById_after_add_witness:
  "no_match (IdNum 2) [user_A] \<and> id_matches (IdNum 2) user_B = Inr True
   \<and> getById ''items'' (IdNum 2) (snd (add ''items'' user_B items_store)) = Inr user_B"
proof -
  have n: "no_match (IdNum 2) [user_A]" by (simp add: no_match_def)
  have m: "id_matches (IdNum 2) user_B = Inr True" by simp
  from getById_after_add [OF items_store_collection n m] n m show ?thesis by simp
qed

text \<open>
  Claim C7 as stated (after any sequence of \<open>add\<close> and \<open>remove\<close> calls, \<open>count()\<close> is the
  number of \<open>add\<close> calls minus the number of \<open>remove\<close> calls that returned a record)
  fails on a store whose collection holds records before the sequence starts, as a
  store opened on an existing file does: with no call at all, \<open>count()\<close> is \<open>1\<close> on the
  store that holds \<open>user_A\<close>.
\<close>

theorem count_counterexample:
  "get items_store ''items'' = Arr [user_A] None
   \<and> add_calls [] = 0
   \<and> successful_removes ''items'' [] items_store = 0
   \<and> count ''items'' (run ''items'' [] items_store) = Inr (Num 1)
   \<and> count ''items'' (run ''items'' [] items_store)
        \<noteq> Inr (Num (int (add_calls []) - int (successful_removes ''items'' [] items_store)))"
  by (simp add: items_store_collection count_def)

text \<open>
  Claim C7, amended. On a single-collection store whose collection holds \<open>n\<close> records,
  after any sequence of \<open>add\<close> and \<open>remove\<close> calls \<open>count()\<close> is \<open>n\<close> plus the number of
  \<open>add\<close> calls minus the number of \<open>remove\<close> calls that returned a record.
\<close>

theorem count_after_operations:
  assumes "get data cn = Arr xs t"
  shows "count cn (run cn ops data)
     = Inr (Num (int (length xs) + int (add_calls ops)
                 - int (successful_removes cn ops data)))"
proof -
  from count_after_run [OF assms, of ops] obtain ys where
    "get (run cn ops data) cn = Arr ys t"
    "int (length ys)
       = int (length xs) + int (add_calls ops) - int (successful_removes cn ops data)"
    by auto
  then show ?thesis by (simp add: count_array)
qed

text \<open>On the store that holds \<open>user_A\<close>: two records added, one removed, one \<open>remove\<close>
  that finds nothing; the count is \<open>1 + 2 - 1\<close>.\<close>

theorem count_after_operations_witness:
  "get items_store ''items'' = Arr [user_A] None
   \<and> add_calls example_operations = 2
   \<and> successful_removes ''items'' example_operations items_store = 1
   \<and> count ''items'' (run ''items'' example_operations items_store) = Inr (Num 2)"
proof -
  let ?d1 = "snd (add ''items'' user_A items_store)"
  let ?d2 = "snd (add ''items'' user_B ?d1)"
  let ?d3 = "put_back ?d2 ''items'' (Arr [user_A, user_B] None)"
  have a: "add_calls example_operations = 2"
    by (simp add: example_operations_def)
  have g1: "get ?d1 ''items'' = Arr [user_A, user_A] None"
    using get_same_after_add [OF items_store_collection] by simp
  have g2: "get ?d2 ''items'' = Arr [user_A, user_A, user_B] None"
    using get_same_after_add [OF g1] by simp
  have f: "array_findIndex (id_matches (IdNum 1)) [user_A, user_A, user_B] = Inr 0"
    by simp
  have r3: "remove ''items'' (IdNum 1) ?d2 = (Inr user_A, ?d3)"
    using remove_found [OF g2 f] by (simp add: splice1_def)
  have g3: "get ?d3 ''items'' = Arr [user_A, user_B] None"
    using g2 by (rule get_put_back)
  have "no_match (IdNum 999) [user_A, user_B]"
    by (simp add: no_match_def id_matches_def user_A_def user_B_def own_value_def)
  with g3 have r4: "remove ''items'' (IdNum 999) ?d3 = (Inr Undefined, ?d3)"
    by (rule remove_no_match)
  have "user_A \<noteq> Undefined" by (simp add: user_A_def)
  then have s: "successful_removes ''items'' example_operations items_store = 1"
    by (simp add: example_operations_def r3 r4)
  from count_after_operations [OF items_store_collection, of example_operations]
  show ?thesis using a s items_store_collection by simp
qed

text \<open>On a collection that starts empty, as that of a store created on a new file, the
  count is the number of \<open>add\<close> calls minus the number of \<open>remove\<close> calls that returned a
  record.\<close>

lemma count_from_empty_collection:
  assumes "get data cn = Arr [] t"
  shows "count cn (run cn ops data)
     = Inr (Num (int (add_calls ops) - int (successful_removes cn ops data)))"
proof -
  from count_after_run [OF assms, of ops] obtain ys where
    "get (run cn ops data) cn = Arr ys t"
    "int (length ys) = int (add_calls ops) - int (successful_removes cn ops data)"
    by auto
  then show ?thesis by (simp add: count_array)
qed

lemma empty_store_collection: "get empty_store ''items'' = Arr [] None"
  by (simp add: empty_store_def createDatabase_def get_def define_all_def entries_of_def
      own_keys_def)

lemma count_on_new_store:
  "count ''items'' (run ''items'' ops empty_store)
     = Inr (Num (int (add_calls ops) - int (successful_removes ''items'' ops empty_store)))"
  using empty_store_collection by (rule count_from_empty_collection)

text \<open>
  Claim C1 says that \<open>update(id, partial)\<close> on an id that some record has returns that
  record with the fields of \<open>partial\<close> laid over it, for every \<open>partial\<close>. The source
  merges at the index \<open>findIndex\<close> answers and then returns
  \<open>find((item) => item.id === id)\<close> on the edited collection. With a \<open>partial\<close> that
  carries another id the merged record no longer answers to \<open>id\<close>: on the store holding
  \<open>{id: 1, name: 'A'}\<close>, \<open>update(1, {id: 2})\<close> stores \<open>{id: 2, name: 'A'}\<close> at index 0 and
  returns \<open>undefined\<close>, the value that means "not found". When \<open>partial\<close> leaves the id
  alone the result is the merged record stored at the index (\<open>update_found\<close>).
\<close>

theorem update_that_changes_id_returns_undefined:
  "update ''items'' (IdNum 1) [(''id'', Num 2)] items_store
     = (Inr Undefined,
        \<lparr>own = [(''items'', Arr [Obj [(''id'', Num 2), (''name'', Str ''A'')]] None)],
         proto = ObjectPrototype\<rparr>)"
proof -
  have k: "\<not> is_array_index ''id''" "\<not> is_array_index ''name''"
    by (simp_all add: is_array_index_def is_digit_def)
  have "object_spread user_A [(''id'', Num 2)] = Obj [(''id'', Num 2), (''name'', Str ''A'')]"
    by (simp add: object_spread_def user_A_def entries_of_def own_keys_def k define_all_def
        own_value_def)
  moreover have "id_matches (IdNum 1) (Obj [(''id'', Num 2), (''name'', Str ''A'')]) = Inr False"
    by (simp add: id_matches_def own_value_def)
  ultimately show ?thesis
    by (simp add: update_def getById_def items_store_collection)
      (simp add: items_store_def createDatabase_def put_back_def get_def)
qed

section \<open>The multi-table database: verified properties\<close>

lemma assign_array_proto:
  "map_of (own data) ''__proto__'' = None \<Longrightarrow>
     assign_array data ''__proto__'' xs = data\<lparr>proto := ArrayInstance xs None\<rparr>"
  by (simp add: assign_array_def)

lemma assign_array_own:
  "map_of (own data) k \<noteq> None \<or> k \<noteq> ''__proto__'' \<Longrightarrow>
     assign_array data k xs = data\<lparr>own := AList.update k (Arr xs None) (own data)\<rparr>"
  by (auto simp: assign_array_def)

lemma get_assign_array: "get (assign_array data k xs) k = Arr xs None"
proof (cases "map_of (own data) k = None \<and> k = ''__proto__''")
  case True
  then have k: "k = ''__proto__''" and n: "map_of (own data) ''__proto__'' = None"
    by auto
  show ?thesis unfolding k assign_array_proto [OF n] using n by (simp add: get_def)
next
  case False
  then have "map_of (own data) k \<noteq> None \<or> k \<noteq> ''__proto__''" by auto
  from assign_array_own [OF this] show ?thesis by (simp add: get_def update_conv')
qed

lemma own_assign_array:
  "own (assign_array data k xs)
     = (if map_of (own data) k = None \<and> k = ''__proto__'' then own data
        else AList.update k (Arr xs None) (own data))"
proof (cases "map_of (own data) k = None \<and> k = ''__proto__''")
  case True
  then have k: "k = ''__proto__''" and n: "map_of (own data) ''__proto__'' = None"
    by auto
  show ?thesis unfolding k assign_array_proto [OF n] using n by simp
next
  case False
  then have "map_of (own data) k \<noteq> None \<or> k \<noteq> ''__proto__''" by auto
  from assign_array_own [OF this] False show ?thesis by auto
qed

lemma get_metadata_assign_array:
  "get (assign_array data k xs) ''_metadata''
     = (if k = ''_metadata'' then Arr xs None else get data ''_metadata'')"
  by (simp add: get_metadata_own own_assign_array)

lemma metadata_is_own:
  "get data ''_metadata'' \<noteq> Undefined \<Longrightarrow> map_of (own data) ''_metadata'' \<noteq> None"
  by (auto simp: get_metadata_own own_value_def split: option.splits)

lemma object_keys_update_own:
  "map_of (own data) k \<noteq> None \<Longrightarrow>
     object_keys (data\<lparr>own := AList.update k v (own data)\<rparr>) = object_keys data"
proof -
  assume "map_of (own data) k \<noteq> None"
  then have "k \<in> set (map fst (own data))"
    by (simp add: map_of_eq_None_iff)
  then have "map fst (AList.update k v (own data)) = map fst (own data)"
    by (simp add: update_keys)
  then show ?thesis by (simp add: object_keys_def own_keys_def)
qed

lemma put_back_own:
  "map_of (own data) k \<noteq> None \<Longrightarrow>
     put_back data k v = data\<lparr>own := AList.update k v (own data)\<rparr>"
  by (simp add: put_back_def)

lemma get_update_own:
  "get (data\<lparr>own := AList.update k v (own data)\<rparr>) k'
     = (if k' = k then v else get data k')"
  by (simp add: get_def update_conv' split: option.splits)

lemma record_tables_absent:
  "\<not> truthy (get data ''_metadata'') \<Longrightarrow> record_tables data = (Inr (), data)"
  by (simp add: record_tables_def)

lemma record_tables_Obj:
  assumes "get data ''_metadata'' = Obj ps"
  shows "record_tables data
     = (Inr (), data\<lparr>own := AList.update ''_metadata''
                 (Obj (AList.update ''tables'' (listTables_result data) ps)) (own data)\<rparr>)"
proof -
  have "map_of (own data) ''_metadata'' \<noteq> None"
    using assms metadata_is_own [of data] by simp
  with assms show ?thesis
    by (simp add: record_tables_def put_back_own listTables_result_def)
qed

lemma record_tables_Arr:
  assumes "get data ''_metadata'' = Arr xs t"
  shows "record_tables data
     = (Inr (), data\<lparr>own := AList.update ''_metadata''
                 (Arr xs (Some (listTables_result data))) (own data)\<rparr>)"
proof -
  have "map_of (own data) ''_metadata'' \<noteq> None"
    using assms metadata_is_own [of data] by simp
  with assms show ?thesis
    by (simp add: record_tables_def put_back_own listTables_result_def)
qed

lemma listTables_result_update_own:
  "map_of (own data) k \<noteq> None \<Longrightarrow>
     listTables_result (data\<lparr>own := AList.update k v (own data)\<rparr>) = listTables_result data"
  by (simp add: listTables_result_def listTables_def object_keys_update_own)

text \<open>After the closing statement of \<open>createTable\<close> and \<open>dropTable\<close> has run without
  error on a document that then has a \<open>_metadata\<close> object, \<open>_metadata.tables\<close> lists the
  other keys of the document.\<close>

lemma record_tables_agree:
  assumes r: "record_tables data = (Inr (), data')"
    and m: "is_object (get data' ''_metadata'')"
  shows "metadata_tables data' = Inr (listTables_result data')"
proof (cases "get data ''_metadata''")
  case (Obj ps)
  have own: "map_of (own data) ''_metadata'' \<noteq> None"
    using Obj metadata_is_own [of data] by simp
  from r record_tables_Obj [OF Obj]
  have d: "data' = data\<lparr>own := AList.update ''_metadata''
      (Obj (AList.update ''tables'' (listTables_result data) ps)) (own data)\<rparr>"
    by simp
  show ?thesis unfolding d
    by (simp add: metadata_tables_def get_update_own listTables_result_update_own [OF own])
next
  case (Arr xs t)
  have own: "map_of (own data) ''_metadata'' \<noteq> None"
    using Arr metadata_is_own [of data] by simp
  from r record_tables_Arr [OF Arr]
  have d: "data' = data\<lparr>own := AList.update ''_metadata''
      (Arr xs (Some (listTables_result data))) (own data)\<rparr>"
    by simp
  show ?thesis unfolding d
    by (simp add: metadata_tables_def get_update_own listTables_result_update_own [OF own])
next
  case Undefined
  with r m show ?thesis by (simp add: record_tables_def)
next
  case Null
  with r m show ?thesis by (simp add: record_tables_def)
next
  case (Bool b)
  with r m show ?thesis by (cases b) (simp_all add: record_tables_def)
next
  case (Num n)
  with r m show ?thesis by (cases "n = 0") (simp_all add: record_tables_def)
next
  case (Str s)
  with r m show ?thesis by (cases "s = []") (simp_all add: record_tables_def)
next
  case (Builtin n a)
  with r m show ?thesis by (simp add: record_tables_def)
qed

lemma record_tables_other:
  assumes "k \<noteq> ''_metadata''"
  shows "get (snd (record_tables data)) k = get data k"
proof (cases "get data ''_metadata''")
  case (Obj ps)
  from record_tables_Obj [OF Obj] assms show ?thesis by (simp add: get_update_own)
next
  case (Arr xs t)
  from record_tables_Arr [OF Arr] assms show ?thesis by (simp add: get_update_own)
qed (simp_all add: record_tables_def)

lemma record_tables_listTables:
  "listTables_result (snd (record_tables data)) = listTables_result data"
proof (cases "get data ''_metadata''")
  case (Obj ps)
  have own: "map_of (own data) ''_metadata'' \<noteq> None"
    using Obj metadata_is_own [of data] by simp
  from record_tables_Obj [OF Obj] show ?thesis
    by (simp add: listTables_result_update_own [OF own])
next
  case (Arr xs t)
  have own: "map_of (own data) ''_metadata'' \<noteq> None"
    using Arr metadata_is_own [of data] by simp
  from record_tables_Arr [OF Arr] show ?thesis
    by (simp add: listTables_result_update_own [OF own])
qed (simp_all add: record_tables_def)

lemma record_tables_completes:
  "is_object (get data ''_metadata'') \<Longrightarrow> fst (record_tables data) = Inr ()"
  by (cases "get data ''_metadata''") (simp_all add: record_tables_def)

lemma get_createTable:
  "get (snd (createTable name init data)) name
     = Arr (case init of None \<Rightarrow> [] | Some xs \<Rightarrow> xs)
         (if name = ''_metadata''
          then Some (listTables_result (snd (createTable name init data))) else None)"
proof -
  let ?xs = "case init of None \<Rightarrow> [] | Some xs \<Rightarrow> xs"
  let ?d = "assign_array data name ?xs"
  have c: "createTable name init data = record_tables ?d"
    by (simp add: createTable_def)
  have g: "get ?d name = Arr ?xs None" by (rule get_assign_array)
  show ?thesis
  proof (cases "name = ''_metadata''")
    case True
    let ?e = "assign_array data ''_metadata'' ?xs"
    have m: "get ?e ''_metadata'' = Arr ?xs None" by (rule get_assign_array)
    have own: "map_of (own ?e) ''_metadata'' \<noteq> None"
      using m metadata_is_own [of ?e] by simp
    have c': "createTable ''_metadata'' init data = record_tables ?e"
      by (simp add: createTable_def)
    show ?thesis unfolding True c' using record_tables_Arr [OF m]
      by (simp add: get_update_own listTables_result_update_own [OF own])
  next
    case False
    then show ?thesis unfolding c using g by (simp add: record_tables_other)
  qed
qed

lemma createTable_completes:
  assumes "is_object (get data ''_metadata'')"
  shows "fst (createTable name init data) = Inr ()"
proof -
  have "is_object (get (assign_array data name (case init of None \<Rightarrow> [] | Some xs \<Rightarrow> xs))
      ''_metadata'')"
    using assms by (simp add: get_metadata_assign_array)
  then show ?thesis by (simp add: createTable_def record_tables_completes)
qed

lemma delete_key_absent: "map_of (own data) name = None \<Longrightarrow> delete_key data name = data"
  by (simp add: delete_key_def map_of_eq_None_iff)

lemma fresh_database_eq:
  "fresh_database
     = \<lparr>own = [(''_metadata'',
                Obj [(''created'', Str ''2024-01-01T00:00:00.000Z''),
                     (''version'', Str ''1.0.0''),
                     (''tables'', Arr [] None)])],
        proto = ObjectPrototype\<rparr>"
  by (simp add: fresh_database_def createMultiTableDatabase_def define_all_def entries_of_def
      own_keys_def)

lemma not_array_index_users [simp]:
  "\<not> is_array_index ''users''" "\<not> is_array_index ''orders''"
  by (simp_all add: is_array_index_def is_digit_def)

lemma users_database_eq:
  "users_database
     = \<lparr>own = [(''_metadata'',
                Obj [(''created'', Str ''2024-01-01T00:00:00.000Z''),
                     (''version'', Str ''1.0.0''),
                     (''tables'', Arr [Str ''users''] None)]),
               (''users'', Arr [] None)],
        proto = ObjectPrototype\<rparr>"
  by (simp add: users_database_def fresh_database_eq createTable_def assign_array_def
      record_tables_def get_def put_back_def listTables_def object_keys_def own_keys_def)

lemma database_without_metadata_eq:
  "database_without_metadata = \<lparr>own = [(''users'', Arr [] None)], proto = ObjectPrototype\<rparr>"
  by (simp add: database_without_metadata_def users_database_eq dropTable_def delete_key_def
      record_tables_def get_def own_value_def)

text \<open>
  Claim C3 as stated (after every completed \<open>createTable\<close> or \<open>dropTable\<close>,
  \<open>_metadata.tables\<close> equals what \<open>listTables\<close> returns) fails once the document has no
  \<open>_metadata\<close>: both operations update the list only under \<open>if (data._metadata)\<close>.
  \<open>dropTable('_metadata')\<close> completes and removes the metadata object; after it the
  document has the table \<open>users\<close> and no \<open>_metadata.tables\<close> to read, and a completed
  \<open>createTable('orders')\<close> records nothing either.
\<close>

theorem metadata_tables_counterexample:
  "dropTable ''_metadata'' users_database = (Inr (), database_without_metadata)
   \<and> listTables database_without_metadata = [''users'']
   \<and> metadata_tables database_without_metadata = Inl TypeError
   \<and> fst (createTable ''orders'' None database_without_metadata) = Inr ()
   \<and> listTables (snd (createTable ''orders'' None database_without_metadata))
        = [''users'', ''orders'']
   \<and> metadata_tables (snd (createTable ''orders'' None database_without_metadata))
        = Inl TypeError"
proof -
  have d: "dropTable ''_metadata'' users_database = (Inr (), database_without_metadata)"
    by (simp add: database_without_metadata_eq users_database_eq dropTable_def delete_key_def
        record_tables_def get_def own_value_def)
  have c: "createTable ''orders'' None database_without_metadata
      = (Inr (), \<lparr>own = [(''users'', Arr [] None), (''orders'', Arr [] None)],
                  proto = ObjectPrototype\<rparr>)"
    by (simp add: database_without_metadata_eq createTable_def assign_array_def
        record_tables_def get_def own_value_def)
  show ?thesis unfolding c
    by (simp add: d)
      (simp add: database_without_metadata_eq listTables_def object_keys_def own_keys_def
        metadata_tables_def get_def own_value_def)
qed

lemma record_tables_skipped:
  assumes "record_tables data = (Inr (), data')" and "\<not> truthy (get data' ''_metadata'')"
  shows "data' = data"
proof (cases "get data ''_metadata''")
  case (Obj ps)
  from record_tables_Obj [OF Obj] assms show ?thesis by (auto simp: get_update_own)
next
  case (Arr xs t)
  from record_tables_Arr [OF Arr] assms show ?thesis by (auto simp: get_update_own)
qed (use assms in \<open>simp_all add: record_tables_def split: if_splits\<close>)

lemma no_metadata_no_tables:
  "\<not> truthy (get data ''_metadata'') \<Longrightarrow>
     metadata_tables data = Inl TypeError \<or> metadata_tables data = Inr Undefined"
  by (cases "get data ''_metadata''") (simp_all add: metadata_tables_def)

text \<open>
  Claim C3, amended. After every completed \<open>createTable\<close> or \<open>dropTable\<close>: when the
  document then has a \<open>_metadata\<close> object, \<open>_metadata.tables\<close> is the list \<open>listTables()\<close>
  returns, the keys of the document other than \<open>_metadata\<close>; when the document then has
  no truthy \<open>_metadata\<close>, the operation has done no more than assign or delete the entry
  of the table, and \<open>_metadata.tables\<close> is not that list: there is nothing to read.
\<close>

theorem metadata_tables_recorded:
  assumes "createTable name init data = (Inr (), data')
           \<or> dropTable name data = (Inr (), data')"
  shows "(is_object (get data' ''_metadata'') \<longrightarrow>
            metadata_tables data' = Inr (listTables_result data'))
     \<and> (\<not> truthy (get data' ''_metadata'') \<longrightarrow>
            (data' = assign_array data name (case init of None \<Rightarrow> [] | Some xs \<Rightarrow> xs)
             \<or> data' = delete_key data name)
          \<and> (metadata_tables data' = Inl TypeError \<or> metadata_tables data' = Inr Undefined)
          \<and> metadata_tables data' \<noteq> Inr (listTables_result data'))"
proof -
  from assms obtain d where d: "record_tables d = (Inr (), data')"
    and dd: "d = assign_array data name (case init of None \<Rightarrow> [] | Some xs \<Rightarrow> xs)
             \<or> d = delete_key data name"
    by (auto simp: createTable_def dropTable_def)
  have one: "metadata_tables data' = Inr (listTables_result data')"
    if "is_object (get data' ''_metadata'')"
    using d that by (rule record_tables_agree)
  have two: "(data' = assign_array data name (case init of None \<Rightarrow> [] | Some xs \<Rightarrow> xs)
             \<or> data' = delete_key data name)
          \<and> (metadata_tables data' = Inl TypeError \<or> metadata_tables data' = Inr Undefined)
          \<and> metadata_tables data' \<noteq> Inr (listTables_result data')"
    if n: "\<not> truthy (get data' ''_metadata'')"
  proof -
    have "data' = d" using d n by (rule record_tables_skipped)
    with dd have a: "data' = assign_array data name (case init of None \<Rightarrow> [] | Some xs \<Rightarrow> xs)
             \<or> data' = delete_key data name" by simp
    from no_metadata_no_tables [OF n]
    have b: "metadata_tables data' = Inl TypeError \<or> metadata_tables data' = Inr Undefined" .
    then have "metadata_tables data' \<noteq> Inr (listTables_result data')"
      by (auto simp: listTables_result_def)
    with a b show ?thesis by simp
  qed
  from one two show ?thesis by blast
qed

text \<open>\<open>createTable('users')\<close> on the new database, which keeps its metadata, and
  \<open>dropTable('_metadata')\<close> after it, which removes it.\<close>

theorem metadata_tables_recorded_witness:
  "createTable ''users'' None fresh_database = (Inr (), users_database)
   \<and> is_object (get users_database ''_metadata'')
   \<and> listTables_result users_database = Arr [Str ''users''] None
   \<and> metadata_tables users_database = Inr (Arr [Str ''users''] None)
   \<and> dropTable ''_metadata'' users_database = (Inr (), database_without_metadata)
   \<and> \<not> truthy (get database_without_metadata ''_metadata'')
   \<and> database_without_metadata = delete_key users_database ''_metadata''
   \<and> metadata_tables database_without_metadata = Inl TypeError
   \<and> metadata_tables database_without_metadata
        \<noteq> Inr (listTables_result database_without_metadata)"
proof -
  have c: "createTable ''users'' None fresh_database = (Inr (), users_database)"
    using createTable_completes [of fresh_database "''users''" None]
    by (simp add: users_database_def prod_eq_iff fresh_database_eq get_def)
  have o: "is_object (get users_database ''_metadata'')"
    by (simp add: users_database_eq get_def)
  have l: "listTables_result users_database = Arr [Str ''users''] None"
    by (simp add: users_database_eq listTables_result_def listTables_def object_keys_def
        own_keys_def)
  have d: "dropTable ''_metadata'' users_database = (Inr (), database_without_metadata)"
    by (simp add: database_without_metadata_eq users_database_eq dropTable_def delete_key_def
        record_tables_def get_def own_value_def)
  have n: "\<not> truthy (get database_without_metadata ''_metadata'')"
    by (simp add: database_without_metadata_eq get_def own_value_def)
  have k: "database_without_metadata = delete_key users_database ''_metadata''"
    by (simp add: database_without_metadata_eq users_database_eq delete_key_def)
  have t: "metadata_tables database_without_metadata = Inl TypeError"
    by (simp add: database_without_metadata_eq metadata_tables_def get_def own_value_def)
  from metadata_tables_recorded [OF disjI1 [OF c]] o
  have "metadata_tables users_database = Inr (listTables_result users_database)" by simp
  moreover from metadata_tables_recorded [OF disjI2 [OF d]] n
  have "metadata_tables database_without_metadata
      \<noteq> Inr (listTables_result database_without_metadata)" by simp
  ultimately show ?thesis using c o l d n k t by simp
qed

text \<open>Under every name but \<open>__proto__\<close>, and under \<open>__proto__\<close> when it is a key of
  the document, \<open>createTable(name, initialData)\<close> leaves the key \<open>name\<close> with an array of
  exactly the elements of \<open>initialData\<close>, none when the argument is omitted, whatever the
  document held there before (under the name \<open>_metadata\<close> the array also receives the
  property \<open>tables\<close>). It returns normally unless \<open>_metadata\<close> is a truthy primitive.\<close>

lemma own_record_tables:
  "(map_of (own (snd (record_tables data))) k = None) = (map_of (own data) k = None)"
proof (cases "get data ''_metadata''")
  case (Obj ps)
  have "map_of (own data) ''_metadata'' \<noteq> None"
    using Obj metadata_is_own [of data] by simp
  with record_tables_Obj [OF Obj] show ?thesis by (auto simp: update_conv')
next
  case (Arr xs t)
  have "map_of (own data) ''_metadata'' \<noteq> None"
    using Arr metadata_is_own [of data] by simp
  with record_tables_Arr [OF Arr] show ?thesis by (auto simp: update_conv')
qed (simp_all add: record_tables_def)

lemma get_own: "map_of (own data) k \<noteq> None \<Longrightarrow> map_of (own data) k = Some (get data k)"
  by (auto simp: get_def)

lemma createTable_own_entry:
  assumes "name \<noteq> ''__proto__'' \<or> map_of (own data) name \<noteq> None"
  shows "map_of (own (snd (createTable name init data))) name
     = Some (Arr (case init of None \<Rightarrow> [] | Some xs \<Rightarrow> xs)
              (if name = ''_metadata''
               then Some (listTables_result (snd (createTable name init data))) else None))"
proof -
  let ?xs = "case init of None \<Rightarrow> [] | Some xs \<Rightarrow> xs"
  have "map_of (own data) name \<noteq> None \<or> name \<noteq> ''__proto__''" using assms by auto
  from assign_array_own [OF this, of ?xs]
  have "map_of (own (assign_array data name ?xs)) name \<noteq> None"
    by (simp add: update_conv')
  then have "map_of (own (snd (createTable name init data))) name \<noteq> None"
    by (simp add: createTable_def own_record_tables)
  from get_own [OF this] show ?thesis by (simp only: get_createTable)
qed

lemma createTable_returns:
  assumes "name = ''_metadata'' \<or> is_object (get data ''_metadata'')
           \<or> \<not> truthy (get data ''_metadata'')"
  shows "fst (createTable name init data) = Inr ()"
proof -
  let ?d = "assign_array data name (case init of None \<Rightarrow> [] | Some xs \<Rightarrow> xs)"
  have "is_object (get ?d ''_metadata'') \<or> \<not> truthy (get ?d ''_metadata'')"
    using assms by (auto simp: get_metadata_assign_array)
  then show ?thesis
    by (auto simp: createTable_def record_tables_completes record_tables_absent)
qed

text \<open>
  Claim C9 says that for every table name \<open>createTable(name, initialData)\<close> sets the
  entry of the document for that name to \<open>initialData\<close>. The source does so with the
  assignment \<open>data[tableName] = initialData\<close>; for the name \<open>__proto__\<close> that assignment
  reaches the setter every plain object inherits, which makes the array the prototype
  of the document and creates no entry. On the new database
  \<open>createTable('__proto__', [{id: 1, name: 'A'}])\<close> returns normally and the document has
  the same keys as before: no key \<open>__proto__\<close>, no table in \<open>listTables()\<close>, an empty
  \<open>_metadata.tables\<close>. For every other name the entry is set, and replaces the records
  of a table that existed (\<open>createTable_own_entry\<close>).
\<close>

theorem createTable_proto_creates_no_entry:
  "createTable ''__proto__'' (Some [user_A]) fresh_database
     = (Inr (), fresh_database\<lparr>proto := ArrayInstance [user_A] None\<rparr>)
   \<and> map_of (own (snd (createTable ''__proto__'' (Some [user_A]) fresh_database))) ''__proto__''
        = None
   \<and> object_keys (snd (createTable ''__proto__'' (Some [user_A]) fresh_database))
        = [''_metadata'']
   \<and> listTables (snd (createTable ''__proto__'' (Some [user_A]) fresh_database)) = []
   \<and> metadata_tables (snd (createTable ''__proto__'' (Some [user_A]) fresh_database))
        = Inr (Arr [] None)"
proof -
  have c: "createTable ''__proto__'' (Some [user_A]) fresh_database
      = (Inr (), fresh_database\<lparr>proto := ArrayInstance [user_A] None\<rparr>)"
    by (simp add: createTable_def assign_array_def fresh_database_eq record_tables_def get_def
        put_back_def listTables_def object_keys_def own_keys_def)
  show ?thesis unfolding c
    by (simp add: fresh_database_eq listTables_def object_keys_def own_keys_def
        metadata_tables_def get_def own_value_def)
qed

lemma ensureTable_array: "get data name = Arr xs t \<Longrightarrow> ensureTable name data = Inr ()"
  by (simp add: ensureTable_def)

lemma populated_database_eq:
  "populated_database
     = \<lparr>own = [(''_metadata'',
                Obj [(''created'', Str ''2024-01-01T00:00:00.000Z''),
                     (''version'', Str ''1.0.0''),
                     (''tables'', Arr [Str ''users''] None)]),
               (''users'', Arr [user_A, user_B] None)],
        proto = ObjectPrototype\<rparr>"
  by (simp add: populated_database_def users_database_eq table_add_def ensureTable_def add_def
      get_def put_back_def)

text \<open>
  The operations of a table handle start with \<open>ensureTable\<close>, which throws when
  \<open>data[tableName]\<close> is falsy. When it is, each of the ten operations raises the
  "table does not exist" error and the document is the one before the call.
\<close>

lemma table_operations_on_missing_table:
  assumes "\<not> truthy (get data name)"
  shows "table_getAll name data = Inl (TableDoesNotExist name)"
    and "table_getById name i data = Inl (TableDoesNotExist name)"
    and "table_find name predicate data = Inl (TableDoesNotExist name)"
    and "table_findOne name predicate data = Inl (TableDoesNotExist name)"
    and "table_add name item data = (Inl (TableDoesNotExist name), data)"
    and "table_update name i updates data = (Inl (TableDoesNotExist name), data)"
    and "table_remove name i data = (Inl (TableDoesNotExist name), data)"
    and "table_count name data = Inl (TableDoesNotExist name)"
    and "table_clear name data = (Inl (TableDoesNotExist name), data)"
    and "table_query name callback data = Inl (TableDoesNotExist name)"
  using assms
  by (simp_all add: ensureTable_def table_getAll_def table_getById_def table_find_def
      table_findOne_def table_add_def table_update_def table_remove_def table_count_def
      table_clear_def table_query_def)

text \<open>
  Claim C2 says that on a table name that is not present in the document every
  operation of the handle fails with a "table does not exist" error, before the
  document is edited. \<open>ensureTable\<close> tests \<open>!data[tableName]\<close>, and a lookup by key also
  answers the members a plain object inherits. On the new database the name
  \<open>constructor\<close> is no key of the document and no table in \<open>listTables()\<close>, yet
  \<open>ensureTable\<close> lets it pass: \<open>getAll\<close> returns the function \<open>Object\<close>, \<open>count\<close> its
  \<open>length\<close>, \<open>getById\<close> and \<open>add\<close> raise a \<open>TypeError\<close>, and \<open>clear\<close> creates the entry
  \<open>constructor\<close> in the document. For a name whose lookup is falsy the claim holds
  (\<open>table_operations_on_missing_table\<close>).
\<close>

theorem inherited_name_passes_ensureTable:
  "map_of (own fresh_database) ''constructor'' = None
   \<and> listTables fresh_database = []
   \<and> table_getAll ''constructor'' fresh_database = Inr (Builtin ''Object'' (Some 1))
   \<and> table_count ''constructor'' fresh_database = Inr (Num 1)
   \<and> table_getById ''constructor'' (IdNum 1) fresh_database = Inl TypeError
   \<and> table_add ''constructor'' user_A fresh_database = (Inl TypeError, fresh_database)
   \<and> table_clear ''constructor'' fresh_database
        = (Inr (), fresh_database\<lparr>own := own fresh_database @ [(''constructor'', Arr [] None)]\<rparr>)"
proof -
  have g: "get fresh_database ''constructor'' = Builtin ''Object'' (Some 1)"
    by (simp add: fresh_database_eq get_def object_prototype_members_def own_value_def)
  have n: "map_of (own fresh_database) ''constructor'' = None"
    by (simp add: fresh_database_eq)
  have l: "listTables fresh_database = []"
    by (simp add: fresh_database_eq listTables_def object_keys_def own_keys_def)
  have c: "table_clear ''constructor'' fresh_database
      = (Inr (), fresh_database\<lparr>own := own fresh_database @ [(''constructor'', Arr [] None)]\<rparr>)"
    by (simp add: table_clear_def ensureTable_def g clear_def assign_array_def)
      (simp add: fresh_database_eq)
  show ?thesis
    by (simp add: n l c)
      (simp add: table_getAll_def table_count_def table_getById_def table_add_def
        ensureTable_def getAll_def count_def getById_def add_def g)
qed

text \<open>
  Claim C10 as stated (\<open>dropTable\<close> of a name that is no key of the document succeeds,
  leaves the tables alone, and recomputes \<open>_metadata.tables\<close>) fails in its last part on
  a document without \<open>_metadata\<close>: the call returns normally and leaves the document as
  it is, with the table \<open>users\<close> and no \<open>_metadata.tables\<close>.
\<close>

theorem dropTable_absent_name_counterexample:
  "map_of (own database_without_metadata) ''ghost'' = None
   \<and> dropTable ''ghost'' database_without_metadata = (Inr (), database_without_metadata)
   \<and> listTables database_without_metadata = [''users'']
   \<and> metadata_tables (snd (dropTable ''ghost'' database_without_metadata)) = Inl TypeError"
proof -
  have d: "dropTable ''ghost'' database_without_metadata = (Inr (), database_without_metadata)"
    by (simp add: database_without_metadata_eq dropTable_def delete_key_def record_tables_def
        get_def own_value_def)
  show ?thesis unfolding d
    by (simp add: database_without_metadata_eq listTables_def object_keys_def own_keys_def
        metadata_tables_def get_def own_value_def)
qed

text \<open>
  Claim C10, amended. For a name that is no key of the document: when the document has
  a \<open>_metadata\<close> object, \<open>dropTable(name)\<close> returns normally, every entry other than
  \<open>_metadata\<close> reads as before, the table names are the same, and \<open>_metadata.tables\<close> is
  the list of the document's keys other than \<open>_metadata\<close>; when the document has no
  truthy \<open>_metadata\<close>, \<open>dropTable(name)\<close> returns normally and leaves the document as it
  is.
\<close>

theorem dropTable_absent_name:
  assumes "map_of (own data) name = None"
  shows "(is_object (get data ''_metadata'') \<longrightarrow>
            fst (dropTable name data) = Inr ()
          \<and> (\<forall>k. k \<noteq> ''_metadata'' \<longrightarrow> get (snd (dropTable name data)) k = get data k)
          \<and> listTables_result (snd (dropTable name data)) = listTables_result data
          \<and> metadata_tables (snd (dropTable name data)) = Inr (listTables_result data))
     \<and> (\<not> truthy (get data ''_metadata'') \<longrightarrow> dropTable name data = (Inr (), data))"
proof -
  have d: "dropTable name data = record_tables data"
    using assms by (simp add: dropTable_def delete_key_absent)
  have "metadata_tables (snd (record_tables data)) = Inr (listTables_result data)"
    if o: "is_object (get data ''_metadata'')"
  proof -
    have f: "fst (record_tables data) = Inr ()" using o by (rule record_tables_completes)
    have "is_object (get (snd (record_tables data)) ''_metadata'')"
    proof (cases "get data ''_metadata''")
      case (Obj ps)
      from record_tables_Obj [OF Obj] show ?thesis by (simp add: get_update_own)
    next
      case (Arr xs t)
      from record_tables_Arr [OF Arr] show ?thesis by (simp add: get_update_own)
    qed (use o in simp_all)
    with record_tables_agree [of data "snd (record_tables data)"] f
    show ?thesis by (simp add: prod_eq_iff record_tables_listTables)
  qed
  then show ?thesis unfolding d
    by (simp add: record_tables_completes record_tables_other record_tables_listTables
        record_tables_absent)
qed

text \<open>\<open>dropTable('ghost')\<close> on the database whose table \<open>users\<close> holds two records.\<close>

theorem dropTable_absent_name_witness:
  "map_of (own populated_database) ''ghost'' = None
   \<and> is_object (get populated_database ''_metadata'')
   \<and> fst (dropTable ''ghost'' populated_database) = Inr ()
   \<and> get (snd (dropTable ''ghost'' populated_database)) ''users'' = Arr [user_A, user_B] None
   \<and> metadata_tables (snd (dropTable ''ghost'' populated_database))
        = Inr (Arr [Str ''users''] None)"
proof -
  have n: "map_of (own populated_database) ''ghost'' = None"
    by (simp add: populated_database_eq)
  have o: "is_object (get populated_database ''_metadata'')"
    by (simp add: populated_database_eq get_def)
  have g: "get populated_database ''users'' = Arr [user_A, user_B] None"
    by (simp add: populated_database_eq get_def)
  have l: "listTables_result populated_database = Arr [Str ''users''] None"
    by (simp add: populated_database_eq listTables_result_def listTables_def object_keys_def
        own_keys_def)
  have k: "''users'' \<noteq> ''_metadata''" by simp
  from dropTable_absent_name [OF n] o
  have a: "fst (dropTable ''ghost'' populated_database) = Inr ()"
    and b: "\<forall>k. k \<noteq> ''_metadata'' \<longrightarrow>
        get (snd (dropTable ''ghost'' populated_database)) k = get populated_database k"
    and c: "metadata_tables (snd (dropTable ''ghost'' populated_database))
      = Inr (listTables_result populated_database)"
    by simp_all
  from b k have "get (snd (dropTable ''ghost'' populated_database)) ''users''
      = get populated_database ''users''"
    by simp
  with a c have "fst (dropTable ''ghost'' populated_database) = Inr ()"
    and "get (snd (dropTable ''ghost'' populated_database)) ''users''
      = get populated_database ''users''"
    and "metadata_tables (snd (dropTable ''ghost'' populated_database))
      = Inr (listTables_result populated_database)"
    by simp_all
  with n o g l show ?thesis by simp
qed

lemma metadata_of_new_database:
  "is_object (get (createMultiTableDatabase now initialTables None) ''_metadata'')"
  by (simp add: get_metadata_own createMultiTableDatabase_def)

lemma table_add_array:
  "get data name = Arr xs t \<Longrightarrow> table_add name r data = add name r data"
  by (simp add: table_add_def ensureTable_def)

lemma table_update_array:
  "get data name = Arr xs t \<Longrightarrow> table_update name i updates data = update name i updates data"
  by (simp add: table_update_def ensureTable_def)

lemma table_getAll_array:
  "get data name = Arr xs t \<Longrightarrow> table_getAll name data = Inr (Arr xs t)"
  by (simp add: table_getAll_def ensureTable_def getAll_def)

lemma spread_user_A: "object_spread user_A [(''name'', Str ''A2'')] = user_A2"
proof -
  have k: "\<not> is_array_index ''id''" "\<not> is_array_index ''name''"
    by (simp_all add: is_array_index_def is_digit_def)
  show ?thesis
    by (simp add: object_spread_def user_A_def user_A2_def entries_of_def own_keys_def k
        define_all_def own_value_def)
qed

text \<open>
  Claim C8. On a multi-table database just created on a new file (at any time \<open>now\<close>,
  with any initial tables), the calls \<open>createTable('users', [])\<close>,
  \<open>table('users').add({id: 1, name: 'A'})\<close>, \<open>table('users').add({id: 2, name: 'B'})\<close> and
  \<open>table('users').update(1, {name: 'A2'})\<close> all return normally, and
  \<open>table('users').getAll()\<close> then is \<open>[{id: 1, name: 'A2'}, {id: 2, name: 'B'}]\<close>, in
  that order.
\<close>

theorem users_scenario:
  "let d0 = createMultiTableDatabase now initialTables None;
       d1 = snd (createTable ''users'' (Some []) d0);
       d2 = snd (table_add ''users'' user_A d1);
       d3 = snd (table_add ''users'' user_B d2);
       d4 = snd (table_update ''users'' (IdNum 1) [(''name'', Str ''A2'')] d3)
   in fst (createTable ''users'' (Some []) d0) = Inr ()
      \<and> fst (table_add ''users'' user_A d1) = Inr user_A
      \<and> fst (table_add ''users'' user_B d2) = Inr user_B
      \<and> fst (table_update ''users'' (IdNum 1) [(''name'', Str ''A2'')] d3) = Inr user_A2
      \<and> table_getAll ''users'' d4 = Inr (Arr [user_A2, user_B] None)"
proof -
  let ?d0 = "createMultiTableDatabase now initialTables None"
  let ?d1 = "snd (createTable ''users'' (Some []) ?d0)"
  let ?d2 = "snd (table_add ''users'' user_A ?d1)"
  let ?d3 = "snd (table_add ''users'' user_B ?d2)"
  let ?u = "table_update ''users'' (IdNum 1) [(''name'', Str ''A2'')] ?d3"
  have r1: "fst (createTable ''users'' (Some []) ?d0) = Inr ()"
    using metadata_of_new_database by (rule createTable_completes)
  have g1: "get ?d1 ''users'' = Arr [] None"
    using get_createTable [of "''users''" "Some []" ?d0] by simp
  have a2: "table_add ''users'' user_A ?d1 = add ''users'' user_A ?d1"
    using g1 by (rule table_add_array)
  have r2: "fst (table_add ''users'' user_A ?d1) = Inr user_A"
    unfolding a2 using g1 by (rule fst_add)
  have g2: "get ?d2 ''users'' = Arr [user_A] None"
    unfolding a2 using get_same_after_add [OF g1] by simp
  have a3: "table_add ''users'' user_B ?d2 = add ''users'' user_B ?d2"
    using g2 by (rule table_add_array)
  have r3: "fst (table_add ''users'' user_B ?d2) = Inr user_B"
    unfolding a3 using g2 by (rule fst_add)
  have g3: "get ?d3 ''users'' = Arr [user_A, user_B] None"
    unfolding a3 using get_same_after_add [OF g2] by simp
  have f: "array_findIndex (id_matches (IdNum 1)) [user_A, user_B] = Inr 0"
    by simp
  have n: "''id'' \<notin> fst ` set [(''name'', Str ''A2'')]
      \<or> strict_equals (own_value [(''name'', Str ''A2'')] ''id'') (IdNum 1)"
    by simp
  have u: "?u = (Inr user_A2, put_back ?d3 ''users'' (Arr [user_A2, user_B] None))"
    unfolding table_update_array [OF g3]
    using update_found [OF g3 f _ n] by (simp add: spread_user_A)
  have g4: "get (snd ?u) ''users'' = Arr [user_A2, user_B] None"
    unfolding u using get_put_back [OF g3] by simp
  have r4: "fst ?u = Inr user_A2" unfolding u by simp
  from g4 have "table_getAll ''users'' (snd ?u) = Inr (Arr [user_A2, user_B] None)"
    by (rule table_getAll_array)
  with r1 r2 r3 r4 show ?thesis by (simp add: Let_def)
qed

end
